theory Spec2Isabelle
  imports Complex_Main "HOL-Library.Word"
begin

section \<open>JavaScript strings\<close>

text \<open>
  A JavaScript string is a sequence of UTF-16 code units. String literals of the source
  are ASCII and are written with \<open>lit\<close>.
\<close>

type_synonym unit16 = "16 word"
type_synonym jstring = "unit16 list"

definition lit :: "string \<Rightarrow> jstring" where
  "lit s = map (\<lambda>c. of_nat (of_char c)) s"

text \<open>
  \<open>String.prototype.trim\<close> removes the code units of the ECMAScript productions
  WhiteSpace and LineTerminator from both ends: TAB, VT, FF, SP, NBSP, ZWNBSP, the
  category Zs, and LF, CR, LS, PS.
\<close>

definition is_ws :: "unit16 \<Rightarrow> bool" where
  "is_ws c \<longleftrightarrow> c \<in> set [0x09, 0x0A, 0x0B, 0x0C, 0x0D, 0x20, 0xA0, 0x1680,
      0x2000, 0x2001, 0x2002, 0x2003, 0x2004, 0x2005, 0x2006, 0x2007, 0x2008, 0x2009, 0x200A,
      0x2028, 0x2029, 0x202F, 0x205F, 0x3000, 0xFEFF]"

definition trim :: "jstring \<Rightarrow> jstring" where
  "trim s = rev (dropWhile is_ws (rev (dropWhile is_ws s)))"

text \<open>
  \<open>s.replace(/c/g, r)\<close> for a pattern that is one literal character and a replacement
  without \<open>$\<close>: every occurrence of the character is replaced, left to right.
\<close>

definition replace_all :: "unit16 \<Rightarrow> jstring \<Rightarrow> jstring \<Rightarrow> jstring" where
  "replace_all c r s = concat (map (\<lambda>x. if x = c then r else [x]) s)"

section \<open>JavaScript values\<close>

text \<open>
  The values that reach the modelled code are JSON-like data. A plain object is the list
  of its own enumerable properties in the order of \<open>Object.entries\<close>, with pairwise
  distinct keys; \<open>JSON.parse\<close> makes an own property of every key it reads,
  \<open>__proto__\<close> included. The prototype of an object is not part of a value.
  Numbers are finite (the code never computes with them, it only tests them for truthiness
  and passes them on).
\<close>

datatype jsval =
    JUndefined
  | JNull
  | JBool bool
  | JNum real
  | JStr jstring
  | JArr "jsval list"
  | JObj "(jstring \<times> jsval) list"

fun typeof :: "jsval \<Rightarrow> string" where
  "typeof JUndefined = ''undefined''"
| "typeof JNull = ''object''"
| "typeof (JBool _) = ''boolean''"
| "typeof (JNum _) = ''number''"
| "typeof (JStr _) = ''string''"
| "typeof (JArr _) = ''object''"
| "typeof (JObj _) = ''object''"

text \<open>ToBoolean: what \<open>!v\<close>, \<open>v && \<dots>\<close>, \<open>v || \<dots>\<close> and \<open>v ? \<dots>\<close> test.\<close>

fun truthy :: "jsval \<Rightarrow> bool" where
  "truthy JUndefined = False"
| "truthy JNull = False"
| "truthy (JBool b) = b"
| "truthy (JNum r) = (r \<noteq> 0)"
| "truthy (JStr s) = (s \<noteq> [])"
| "truthy (JArr _) = True"
| "truthy (JObj _) = True"

fun isArray :: "jsval \<Rightarrow> bool" where
  "isArray (JArr _) = True"
| "isArray _ = False"

fun the_str :: "jsval \<Rightarrow> jstring" where
  "the_str (JStr s) = s"
| "the_str _ = []"

fun the_items :: "jsval \<Rightarrow> jsval list" where
  "the_items (JArr xs) = xs"
| "the_items _ = []"

text \<open>The decimal numeral of a natural number, as \<open>Number.prototype.toString\<close> prints it.\<close>

fun digits :: "nat \<Rightarrow> jstring" where
  "digits n = (if n < 10 then [of_nat (48 + n)] else digits (n div 10) @ [of_nat (48 + n mod 10)])"

declare digits.simps [simp del]

definition index_keys :: "nat \<Rightarrow> jstring list" where
  "index_keys n = map digits [0..<n]"

text \<open>
  \<open>Object.entries\<close> of an object or an array: the elements of an array are its properties
  \<open>"0"\<close>, \<open>"1"\<close>, \<dots> The code never asks for the entries of anything else.
\<close>

fun entries :: "jsval \<Rightarrow> (jstring \<times> jsval) list" where
  "entries (JObj kvs) = kvs"
| "entries (JArr xs) = zip (index_keys (length xs)) xs"
| "entries _ = []"

text \<open>Reading the own property \<open>k\<close> of a value.\<close>

definition own_prop :: "jsval \<Rightarrow> jstring \<Rightarrow> jsval option" where
  "own_prop v k = map_of (entries v) k"

section \<open>src/lib/security.ts\<close>

definition sanitizeString :: "jstring \<Rightarrow> jstring" where
  "sanitizeString input =
     (if input = [] then []
      else trim
        (replace_all 0x2F (lit ''&#x2F;'')
        (replace_all 0x27 (lit ''&#x27;'')
        (replace_all 0x22 (lit ''&quot;'')
        (replace_all 0x26 (lit ''&amp;'')
        (replace_all 0x3E (lit ''&gt;'')
        (replace_all 0x3C (lit ''&lt;'') input)))))))"

text \<open>
  \<open>sanitizeObject\<close> returns everything that is falsy or not of type \<open>object\<close>
  as it is (the third equation); an array passes that test and is rebuilt, like an object,
  from its entries. The result starts as \<open>{}\<close> and gets its properties by
  \<open>result[key] = \<dots>\<close>; for the key \<open>__proto__\<close> that assignment calls the
  setter of \<open>Object.prototype\<close> and creates no property, so an entry of that name is
  not in the result (an index of an array is never that name). \<open>sanitizeValue\<close> is the
  body of the loop over the entries and \<open>sanitizeItem\<close> the callback of
  \<open>value.map\<close>; the lemmas \<open>sanitizeObject_source\<close>, \<open>sanitizeValue_source\<close> and
  \<open>sanitizeItem_source\<close> below give the three functions with the tests of the source.
\<close>

fun sanitizeObject :: "jsval \<Rightarrow> jsval"
  and sanitizeValue :: "jsval \<Rightarrow> jsval"
  and sanitizeItem :: "jsval \<Rightarrow> jsval"
where
  "sanitizeObject (JObj kvs) =
     JObj (map (\<lambda>(key, v). (key, sanitizeValue v)) (filter (\<lambda>(key, v). key \<noteq> lit ''__proto__'') kvs))"
| "sanitizeObject (JArr xs) = JObj (zip (index_keys (length xs)) (map sanitizeValue xs))"
| "sanitizeObject obj = obj"
| "sanitizeValue (JStr s) = JStr (sanitizeString s)"
| "sanitizeValue (JArr xs) = JArr (map sanitizeItem xs)"
| "sanitizeValue (JObj kvs) = sanitizeObject (JObj kvs)"
| "sanitizeValue v = v"
| "sanitizeItem (JStr s) = JStr (sanitizeString s)"
| "sanitizeItem (JArr xs) = sanitizeObject (JArr xs)"
| "sanitizeItem (JObj kvs) = sanitizeObject (JObj kvs)"
| "sanitizeItem JNull = sanitizeObject JNull"
| "sanitizeItem v = v"

text \<open>The net effect of the six replacements on one code unit.\<close>

definition escape_unit :: "unit16 \<Rightarrow> jstring" where
  "escape_unit c =
     (if c = 0x3C then lit ''&amp;lt;''
      else if c = 0x3E then lit ''&amp;gt;''
      else if c = 0x26 then lit ''&amp;''
      else if c = 0x22 then lit ''&quot;''
      else if c = 0x27 then lit ''&#x27;''
      else if c = 0x2F then lit ''&#x2F;''
      else [c])"

text \<open>The six characters the sanitizer replaces.\<close>

definition specials :: "unit16 list" where
  "specials = [0x3C, 0x3E, 0x26, 0x22, 0x27, 0x2F]"

text \<open>A value is \<open>clean\<close> when no string in it, at any depth, has one of the six characters.\<close>

fun clean :: "jsval \<Rightarrow> bool" where
  "clean (JStr s) = (\<forall>c \<in> set s. c \<notin> set specials)"
| "clean (JArr xs) = (\<forall>x \<in> set xs. clean x)"
| "clean (JObj kvs) = (\<forall>(k, v) \<in> set kvs. clean v)"
| "clean _ = True"

section \<open>Documents and responses\<close>

text \<open>
  Modelled from the spec: the models \<open>UserGroup\<close>, \<open>ProfileTransaction\<close> and
  \<open>ProfileBudget\<close>, which the routes import and \<open>src/\<close> does not hold. A Group has an
  id, a name, a type and an ordered list of Profiles; a Profile has an id, a name, an
  avatar and a color; a Transaction or a Budget refers to a Profile and to a Group by id.
  An id is an \<open>ObjectId\<close>, twelve bytes, here a number.
\<close>

type_synonym oid = nat

record group_profile =
  p_id :: oid
  p_name :: jstring
  p_avatar :: jsval
  p_color :: jsval

record group =
  g_id :: oid
  g_name :: jstring
  g_type :: jsval
  g_profiles :: "group_profile list"

record child =
  profileId :: oid
  groupId :: oid
  c_data :: jsval

text \<open>
  A response: its status, its headers, and its body. A body is the value given to
  \<open>NextResponse.json\<close> or \<open>JSON.stringify\<close>, or the documents a handler hands over as
  they are; a forwarded request (\<open>NextResponse.next()\<close>) has no body of its own.
\<close>

datatype body =
    Json jsval
  | Doc group
  | Docs "group list"
  | Forwarded

record response =
  status :: nat
  headers :: "(jstring \<times> jstring) list"
  body :: body

text \<open>The response \<open>NextResponse.json(value, {status})\<close> builds when it builds one.\<close>

definition json_response :: "body \<Rightarrow> nat \<Rightarrow> response" where
  "json_response b st =
     \<lparr>status = st, headers = [(lit ''content-type'', lit ''application/json'')], body = b\<rparr>"

section \<open>src/lib/error-handler.ts\<close>

datatype ErrorType =
    VALIDATION
  | AUTHENTICATION
  | AUTHORIZATION
  | NOT_FOUND
  | DATABASE
  | SERVER
  | EXTERNAL_SERVICE

text \<open>The string each member of the enum stands for.\<close>

fun ErrorType_value :: "ErrorType \<Rightarrow> jstring" where
  "ErrorType_value VALIDATION = lit ''VALIDATION_ERROR''"
| "ErrorType_value AUTHENTICATION = lit ''AUTHENTICATION_ERROR''"
| "ErrorType_value AUTHORIZATION = lit ''AUTHORIZATION_ERROR''"
| "ErrorType_value NOT_FOUND = lit ''NOT_FOUND_ERROR''"
| "ErrorType_value DATABASE = lit ''DATABASE_ERROR''"
| "ErrorType_value SERVER = lit ''SERVER_ERROR''"
| "ErrorType_value EXTERNAL_SERVICE = lit ''EXTERNAL_SERVICE_ERROR''"

text \<open>
  An \<open>AppError\<close>; the field \<open>type\<close> of the class is \<open>errtype\<close> here, and \<open>details\<close>
  is \<open>JUndefined\<close> when the constructor got none.
\<close>

record AppError =
  message :: jstring
  errtype :: ErrorType
  statusCode :: nat
  isOperational :: bool
  details :: jsval

text \<open>
  Any other \<open>Error\<close>: its \<open>name\<close>, its \<open>message\<close> and its own enumerable properties
  (the \<open>errors\<close> of a persistence-library validation error are among them).
\<close>

record js_error =
  ename :: jstring
  emessage :: jstring
  eprops :: "(jstring \<times> jsval) list"

text \<open>What a \<open>throw\<close> can carry: an \<open>AppError\<close>, another \<open>Error\<close>, or any other value.\<close>

datatype thrown =
    ThrowApp AppError
  | ThrowError js_error
  | ThrowOther jsval

definition TypeError :: "jstring \<Rightarrow> thrown" where
  "TypeError m = ThrowError \<lparr>ename = lit ''TypeError'', emessage = m, eprops = []\<rparr>"

definition RangeError :: "jstring \<Rightarrow> thrown" where
  "RangeError m = ThrowError \<lparr>ename = lit ''RangeError'', emessage = m, eprops = []\<rparr>"

text \<open>
  \<open>NextResponse.json(value, {status})\<close> is \<open>Response.json\<close> of the platform: it throws a
  \<open>RangeError\<close> for a status outside 200 to 599, and a \<open>TypeError\<close> for a status that
  allows no body (204, 205 and 304 in that range), since the serialised value is a body.
  A handler that calls it throws what it throws.
\<close>

definition null_body_status :: "nat \<Rightarrow> bool" where
  "null_body_status st \<longleftrightarrow> st \<in> set [101, 103, 204, 205, 304]"

definition NextResponse_json :: "body \<Rightarrow> nat \<Rightarrow> thrown + response" where
  "NextResponse_json b st =
     (if st < 200 \<or> 599 < st then
        Inl (RangeError (lit ''init['' @ [0x22] @ lit ''status'' @ [0x22]
                           @ lit ''] must be in the range of 200 to 599, inclusive.''))
      else if null_body_status st then
        Inl (TypeError (lit ''Response constructor: Invalid response status code '' @ digits st))
      else Inr (json_response b st))"

definition createError_validation :: "jstring \<Rightarrow> jsval \<Rightarrow> AppError" where
  "createError_validation msg det =
     \<lparr>message = msg, errtype = VALIDATION, statusCode = 400, isOperational = True, details = det\<rparr>"

definition createError_authentication :: "jstring \<Rightarrow> AppError" where
  "createError_authentication msg =
     \<lparr>message = msg, errtype = AUTHENTICATION, statusCode = 401, isOperational = True, details = JUndefined\<rparr>"

definition createError_authorization :: "jstring \<Rightarrow> AppError" where
  "createError_authorization msg =
     \<lparr>message = msg, errtype = AUTHORIZATION, statusCode = 403, isOperational = True, details = JUndefined\<rparr>"

definition createError_notFound :: "jstring \<Rightarrow> AppError" where
  "createError_notFound msg =
     \<lparr>message = msg, errtype = NOT_FOUND, statusCode = 404, isOperational = True, details = JUndefined\<rparr>"

definition createError_database :: "jstring \<Rightarrow> jsval \<Rightarrow> AppError" where
  "createError_database msg det =
     \<lparr>message = msg, errtype = DATABASE, statusCode = 500, isOperational = True, details = det\<rparr>"

definition createError_server :: "jstring \<Rightarrow> AppError" where
  "createError_server msg =
     \<lparr>message = msg, errtype = SERVER, statusCode = 500, isOperational = True, details = JUndefined\<rparr>"

definition createError_externalService :: "jstring \<Rightarrow> jsval \<Rightarrow> AppError" where
  "createError_externalService msg det =
     \<lparr>message = msg, errtype = EXTERNAL_SERVICE, statusCode = 502, isOperational = True, details = det\<rparr>"

text \<open>The environment variables the code reads; \<open>None\<close> is an unset variable.\<close>

record env =
  NODE_ENV :: "jstring option"
  DEBUG :: "jstring option"

definition production :: "env \<Rightarrow> bool" where
  "production e \<longleftrightarrow> NODE_ENV e = Some (lit ''production'')"

text \<open>
  \<open>handleApiError\<close>. The variables \<open>statusCode\<close>, \<open>errorMessage\<close>, \<open>errorType\<close> and
  \<open>errorDetails\<close> start at their defaults and are overwritten by the branch the thrown
  value takes. What the function writes to the console is not part of the model.
\<close>

definition handleApiError :: "env \<Rightarrow> thrown \<Rightarrow> thrown + response" where
  "handleApiError e error =
     (let (statusCode, errorMessage, errorType, errorDetails) =
        (case error of
           ThrowApp a \<Rightarrow> (AppError.statusCode a, message a, errtype a, details a)
         | ThrowError x \<Rightarrow>
             (500, if production e then lit ''Internal server error'' else emessage x, SERVER, JUndefined)
         | ThrowOther _ \<Rightarrow> (500, lit ''Internal server error'', SERVER, JUndefined))
      in NextResponse_json
           (Json (JObj
              [(lit ''success'', JBool False),
               (lit ''error'', JObj
                  ([(lit ''type'', JStr (ErrorType_value errorType)),
                    (lit ''message'', JStr errorMessage)]
                   @ (if \<not> production e \<and> truthy errorDetails
                      then [(lit ''details'', errorDetails)] else [])))]))
           statusCode)"

text \<open>
  \<open>withErrorHandling\<close>: a handler either returns a response or throws, and has changed
  the state \<open>'s\<close> by then; what it throws goes to \<open>handleApiError\<close>, and what
  \<open>handleApiError\<close> throws inside the \<open>catch\<close> is thrown by the wrapped handler.
\<close>

definition withErrorHandling ::
    "env \<Rightarrow> ('s \<Rightarrow> (thrown + response) \<times> 's) \<Rightarrow> 's \<Rightarrow> (thrown + response) \<times> 's" where
  "withErrorHandling e handler s =
     (case handler s of
        (Inr r, s') \<Rightarrow> (Inr r, s')
      | (Inl error, s') \<Rightarrow> (handleApiError e error, s'))"

text \<open>
  The envelope of an error response, \<open>{success: false, error: {type, message, details?}}\<close>.
\<close>

definition error_envelope :: "jstring \<Rightarrow> jstring \<Rightarrow> jsval option \<Rightarrow> jsval" where
  "error_envelope t m d =
     JObj [(lit ''success'', JBool False),
           (lit ''error'', JObj ([(lit ''type'', JStr t), (lit ''message'', JStr m)]
              @ (case d of None \<Rightarrow> [] | Some v \<Rightarrow> [(lit ''details'', v)])))]"

section \<open>The middleware\<close>

text \<open>
  The rate limiter and the security headers. Time is \<open>Date.now()\<close>, in milliseconds.
  The store is a dictionary from client addresses to entries; an address is not the name
  of a member of \<open>Object.prototype\<close>.
\<close>

definition RATE_LIMIT_WINDOW :: nat where
  "RATE_LIMIT_WINDOW = 60 * 1000"

definition MAX_REQUESTS_PER_WINDOW :: nat where
  "MAX_REQUESTS_PER_WINDOW = 100"

record rate_entry =
  count :: nat
  resetTime :: nat

type_synonym rate_store = "jstring \<Rightarrow> rate_entry option"

text \<open>What the middleware reads of a request: \<open>request.ip\<close> and \<open>request.nextUrl.pathname\<close>.\<close>

record mw_request =
  ip :: "jstring option"
  pathname :: jstring

text \<open>\<open>headers.set\<close>: the value of an existing header is replaced, a new header is added.\<close>

fun headers_set :: "(jstring \<times> jstring) list \<Rightarrow> jstring \<Rightarrow> jstring \<Rightarrow> (jstring \<times> jstring) list" where
  "headers_set [] k v = [(k, v)]"
| "headers_set ((k', v') # hs) k v = (if k' = k then (k, v) # hs else (k', v') # headers_set hs k v)"

definition startsWith :: "jstring \<Rightarrow> jstring \<Rightarrow> bool" where
  "startsWith s p \<longleftrightarrow> take (length p) s = p"

text \<open>The callback of \<open>setInterval\<close>: entries whose window has passed are deleted.\<close>

definition cleanup :: "rate_store \<Rightarrow> nat \<Rightarrow> rate_store" where
  "cleanup store now =
     (\<lambda>key. case store key of
        None \<Rightarrow> None
      | Some d \<Rightarrow> if resetTime d < now then None else Some d)"

text \<open>\<open>request.ip || 'unknown'\<close>.\<close>

definition client :: "mw_request \<Rightarrow> jstring" where
  "client request = (case ip request of None \<Rightarrow> lit ''unknown'' | Some a \<Rightarrow> if a = [] then lit ''unknown'' else a)"

definition security_headers :: "env \<Rightarrow> (jstring \<times> jstring) list" where
  "security_headers e =
     (let h1 = headers_set [] (lit ''X-Content-Type-Options'') (lit ''nosniff'');
          h2 = headers_set h1 (lit ''X-Frame-Options'') (lit ''DENY'');
          h3 = headers_set h2 (lit ''Referrer-Policy'') (lit ''origin-when-cross-origin'');
          h4 = headers_set h3 (lit ''X-XSS-Protection'') (lit ''1; mode=block'');
          h5 = headers_set h4 (lit ''X-DNS-Prefetch-Control'') (lit ''on'')
      in if production e
         then headers_set h5 (lit ''Strict-Transport-Security'')
                (lit ''max-age=63072000; includeSubDomains; preload'')
         else h5)"

text \<open>The response to a request over the limit, with the \<open>resetTime\<close> of the entry.\<close>

definition too_many_requests :: "nat \<Rightarrow> response" where
  "too_many_requests reset =
     \<lparr>status = 429,
      headers =
        [(lit ''Content-Type'', lit ''application/json''),
         (lit ''Retry-After'', lit ''60''),
         (lit ''X-RateLimit-Limit'', digits MAX_REQUESTS_PER_WINDOW),
         (lit ''X-RateLimit-Remaining'', lit ''0''),
         (lit ''X-RateLimit-Reset'', digits reset)],
      body = Json (JObj
        [(lit ''success'', JBool False),
         (lit ''error'', JObj
            [(lit ''message'', JStr (lit ''Too many requests, please try again later.'')),
             (lit ''type'', JStr (lit ''RATE_LIMIT_EXCEEDED''))])])\<rparr>"

text \<open>
  \<open>middleware\<close>, with the store before and after. A response with the body \<open>Forwarded\<close>
  is \<open>NextResponse.next()\<close>: the request goes on to its handler.
\<close>

definition middleware :: "env \<Rightarrow> rate_store \<Rightarrow> mw_request \<Rightarrow> nat \<Rightarrow> response \<times> rate_store" where
  "middleware e store request now =
     (let h = security_headers e in
      if startsWith (pathname request) (lit ''/api/'') then
        (let a = client request;
             rateLimitData =
               (case store a of
                  None \<Rightarrow> \<lparr>count = 0, resetTime = now + RATE_LIMIT_WINDOW\<rparr>
                | Some d \<Rightarrow> d);
             rateLimitData =
               (if resetTime rateLimitData < now
                then \<lparr>count = 0, resetTime = now + RATE_LIMIT_WINDOW\<rparr>
                else rateLimitData);
             rateLimitData = rateLimitData\<lparr>count := count rateLimitData + 1\<rparr>;
             store' = store(a \<mapsto> rateLimitData);
             h1 = headers_set h (lit ''X-RateLimit-Limit'') (digits MAX_REQUESTS_PER_WINDOW);
             h2 = headers_set h1 (lit ''X-RateLimit-Remaining'')
                    (digits (nat (max 0 (int MAX_REQUESTS_PER_WINDOW - int (count rateLimitData)))));
             h3 = headers_set h2 (lit ''X-RateLimit-Reset'') (digits (resetTime rateLimitData))
         in if count rateLimitData > MAX_REQUESTS_PER_WINDOW
            then (too_many_requests (resetTime rateLimitData), store')
            else (\<lparr>status = 200, headers = h3, body = Forwarded\<rparr>, store'))
      else (\<lparr>status = 200, headers = h, body = Forwarded\<rparr>, store))"

text \<open>
  What happens to the store over time: requests pass the middleware, and the timer runs
  the cleanup. \<open>run\<close> gives each request with its time and its response, in order, and
  the store at the end.
\<close>

datatype event =
    Request mw_request nat
  | Sweep nat

fun event_time :: "event \<Rightarrow> nat" where
  "event_time (Request _ t) = t"
| "event_time (Sweep t) = t"

fun run :: "env \<Rightarrow> rate_store \<Rightarrow> event list \<Rightarrow> (mw_request \<times> nat \<times> response) list \<times> rate_store" where
  "run e store [] = ([], store)"
| "run e store (Request r t # evs) =
     (let (resp, store') = middleware e store r t;
          (out, store'') = run e store' evs
      in ((r, t, resp) # out, store''))"
| "run e store (Sweep t # evs) = run e (cleanup store t) evs"

text \<open>The requests of the client \<open>a\<close> on a rate-limited path, and the responses to them.\<close>

definition limited :: "jstring \<Rightarrow> mw_request \<Rightarrow> bool" where
  "limited a r \<longleftrightarrow> client r = a \<and> startsWith (pathname r) (lit ''/api/'')"

definition responses_to :: "jstring \<Rightarrow> (mw_request \<times> nat \<times> response) list \<Rightarrow> response list" where
  "responses_to a out = map (\<lambda>(r, t, resp). resp) (filter (\<lambda>(r, t, resp). limited a r) out)"

fun is_limited_request :: "jstring \<Rightarrow> event \<Rightarrow> bool" where
  "is_limited_request a (Request r t) = limited a r"
| "is_limited_request a (Sweep t) = False"

section \<open>Persistence\<close>

text \<open>
  What the routes use of the persistence library and of the database, with the behaviour
  the library documents. What the code under \<open>src/\<close> does not fix is a field of
  \<open>ext\<close>: which strings \<open>ObjectId.isValid\<close> accepts and the id such a string stands
  for, whether \<open>mongoose.connect\<close> rejects, the ids given to new documents, how the
  schema of \<open>UserGroup\<close> casts an array assigned to \<open>profiles\<close>, and whether \<open>save()\<close>
  rejects a document (a validation of the schema, or a failure of the database).
\<close>

record ext =
  oid_valid :: "jstring \<Rightarrow> bool"
  oid_of :: "jstring \<Rightarrow> oid"
  connect_error :: "js_error option"
  new_oid :: "nat \<Rightarrow> oid"
  cast_profiles :: "jsval list \<Rightarrow> group_profile list"
  save_error :: "group \<Rightarrow> js_error option"

text \<open>The operations sent to the persistence layer, in the order they are sent.\<close>

datatype child_ref = ByProfile | ByGroup

datatype db_op =
    Connect
  | Find
  | FindById oid
  | FindByIdAndDelete oid
  | Save group
  | DeleteTransactions child_ref oid
  | DeleteBudgets child_ref oid

text \<open>
  The state of the process and of the database: whether a connection is cached, the three
  collections, the number of ids generated, and the operations sent so far.
\<close>

record world =
  conn :: bool
  groups :: "group list"
  transactions :: "child list"
  budgets :: "child list"
  generated :: nat
  trace :: "db_op list"

definition sent :: "db_op \<Rightarrow> world \<Rightarrow> world" where
  "sent op w = w\<lparr>trace := trace w @ [op]\<rparr>"

text \<open>
  \<open>dbConnect\<close>, as src/unnamed/part_001 has it: the cached connection is returned when
  there is one; otherwise a connection is opened, and cached when that succeeds. Requests
  are handled one after the other here, so the promise of a connection in progress is
  never seen.
\<close>

definition dbConnect :: "ext \<Rightarrow> world \<Rightarrow> (thrown + unit) \<times> world" where
  "dbConnect x w =
     (if conn w then (Inr (), w)
      else (case connect_error x of
              None \<Rightarrow> (Inr (), sent Connect (w\<lparr>conn := True\<rparr>))
            | Some err \<Rightarrow> (Inl (ThrowError err), sent Connect w)))"

text \<open>
  \<open>findById\<close>; \<open>save()\<close> of a loaded document, which takes the place of the stored one;
  \<open>findByIdAndDelete\<close>; \<open>deleteMany\<close> with a filter on \<open>profileId\<close> or on \<open>groupId\<close>.
\<close>

definition find_group :: "oid \<Rightarrow> group list \<Rightarrow> group option" where
  "find_group i gs = find (\<lambda>g. g_id g = i) gs"

fun replace_doc :: "group \<Rightarrow> group list \<Rightarrow> group list" where
  "replace_doc g [] = []"
| "replace_doc g (h # hs) = (if g_id h = g_id g then g # hs else h # replace_doc g hs)"

fun remove_doc :: "oid \<Rightarrow> group list \<Rightarrow> group list" where
  "remove_doc i [] = []"
| "remove_doc i (h # hs) = (if g_id h = i then hs else h # remove_doc i hs)"

definition delete_by_profile :: "oid \<Rightarrow> child list \<Rightarrow> child list" where
  "delete_by_profile i cs = filter (\<lambda>c. profileId c \<noteq> i) cs"

definition delete_by_group :: "oid \<Rightarrow> child list \<Rightarrow> child list" where
  "delete_by_group i cs = filter (\<lambda>c. groupId c \<noteq> i) cs"

text \<open>\<open>group.profiles.pull({ _id })\<close>: the subdocuments with that id leave the array.\<close>

definition pull :: "oid \<Rightarrow> group_profile list \<Rightarrow> group_profile list" where
  "pull i ps = filter (\<lambda>p. p_id p \<noteq> i) ps"

section \<open>Reading a request body\<close>

text \<open>
  \<open>v.k\<close> for the names the routes read (\<open>name\<close>, \<open>type\<close>, \<open>profiles\<close>, \<open>avatar\<close>,
  \<open>color\<close>, \<open>errors\<close>, \<open>message\<close>), none of which a built-in prototype defines: an own
  property or \<open>undefined\<close>; on \<open>null\<close> and \<open>undefined\<close> the read throws.
\<close>

definition read :: "jsval \<Rightarrow> string \<Rightarrow> jsval" where
  "read v k = (case own_prop v (lit k) of None \<Rightarrow> JUndefined | Some c \<Rightarrow> c)"

definition get_prop :: "jsval \<Rightarrow> string \<Rightarrow> thrown + jsval" where
  "get_prop v k =
     (if v = JNull then
        Inl (TypeError (lit ''Cannot read properties of null (reading '' @ [0x27] @ lit k @ [0x27] @ lit '')''))
      else if v = JUndefined then
        Inl (TypeError (lit ''Cannot read properties of undefined (reading '' @ [0x27] @ lit k @ [0x27] @ lit '')''))
      else Inr (read v k))"

text \<open>\<open>v.trim()\<close>: a string is trimmed, anything else truthy has no such method.\<close>

definition call_trim :: "jsval \<Rightarrow> string \<Rightarrow> thrown + jstring" where
  "call_trim v what =
     (case v of
        JStr s \<Rightarrow> Inr (trim s)
      | _ \<Rightarrow> Inl (TypeError (lit what @ lit ''.trim is not a function'')))"

text \<open>\<open>v || d\<close>.\<close>

definition or_else :: "jsval \<Rightarrow> jsval \<Rightarrow> jsval" where
  "or_else v d = (if truthy v then v else d)"

text \<open>
  The \<open>catch\<close> after \<open>save()\<close> in POST and PUT: a validation error of the persistence
  library becomes a VALIDATION error with the messages of
  \<open>Object.values(error.errors)\<close>, anything else a DATABASE error with the error as
  details.
\<close>

fun messages_of :: "jsval list \<Rightarrow> thrown + jsval list" where
  "messages_of [] = Inr []"
| "messages_of (err # errs) =
     (case get_prop err ''message'' of
        Inl t \<Rightarrow> Inl t
      | Inr m \<Rightarrow> (case messages_of errs of Inl t \<Rightarrow> Inl t | Inr ms \<Rightarrow> Inr (m # ms)))"

definition save_failed :: "jstring \<Rightarrow> js_error \<Rightarrow> thrown" where
  "save_failed what error =
     (if ename error = lit ''ValidationError'' then
        (let errors = read (JObj (eprops error)) ''errors'' in
         if errors = JNull \<or> errors = JUndefined
         then TypeError (lit ''Cannot convert undefined or null to object'')
         else (case messages_of (map snd (entries errors)) of
                 Inl t \<Rightarrow> t
               | Inr validationErrors \<Rightarrow>
                   ThrowApp (createError_validation (lit ''Validation failed'') (JArr validationErrors))))
      else ThrowApp (createError_database what (JObj (eprops error))))"

section \<open>src/app/api/profiles/route.ts\<close>

text \<open>
  A handler gets the state and gives a response or what it throws, and the state after.
  \<open>GET\<close>, \<open>POST\<close>, \<open>PUT\<close> and \<open>DELETE\<close> are the handlers inside \<open>withErrorHandling\<close>.
  Of a request a handler gets \<open>json\<close>, what \<open>await request.json()\<close> gives (the parsed
  body, \<open>body\<close> in the source and \<open>reqBody\<close> here, or what the parser throws), and
  \<open>gid\<close>, the \<open>id\<close> of the path.
\<close>

definition GET_handler :: "ext \<Rightarrow> world \<Rightarrow> (thrown + response) \<times> world" where
  "GET_handler x w =
     (case dbConnect x w of
        (Inl t, w1) \<Rightarrow> (Inl t, w1)
      | (Inr _, w1) \<Rightarrow>
          (let w2 = sent Find w1; gs = groups w2 in
           if gs = [] then (NextResponse_json (Json (JArr [])) 200, w2)
           else (NextResponse_json (Docs gs) 200, w2)))"

definition GET :: "ext \<Rightarrow> env \<Rightarrow> world \<Rightarrow> (thrown + response) \<times> world" where
  "GET x e = withErrorHandling e (GET_handler x)"

definition allowedGroupTypes :: "jstring list" where
  "allowedGroupTypes = [lit ''family'', lit ''roommates'', lit ''personal'', lit ''other'', lit ''friends'']"

text \<open>\<open>allowedGroupTypes.includes(v)\<close> and \<open>allowedGroupTypes.join(', ')\<close>.\<close>

definition includes_value :: "jstring list \<Rightarrow> jsval \<Rightarrow> bool" where
  "includes_value xs v = (case v of JStr s \<Rightarrow> s \<in> set xs | _ \<Rightarrow> False)"

fun join :: "jstring list \<Rightarrow> jstring \<Rightarrow> jstring" where
  "join [] sep = []"
| "join [s] sep = s"
| "join (s # t # ts) sep = s @ sep @ join (t # ts) sep"

definition invalid_name :: "jsval \<Rightarrow> bool" where
  "invalid_name v \<longleftrightarrow> \<not> truthy v \<or> typeof v \<noteq> ''string'' \<or> trim (the_str v) = []"

text \<open>The loop over \<open>body.profiles\<close>: what the first profile without a valid name throws.\<close>

fun check_profiles :: "jsval list \<Rightarrow> thrown option" where
  "check_profiles [] = None"
| "check_profiles (profile # rest) =
     (case get_prop profile ''name'' of
        Inl t \<Rightarrow> Some t
      | Inr v \<Rightarrow>
          if invalid_name v
          then Some (ThrowApp (createError_validation (lit ''Each profile must have a valid name'') JUndefined))
          else check_profiles rest)"

text \<open>
  \<open>new UserGroup({name, type, profiles})\<close>: the document and its subdocuments get new
  ids; a profile is given with the name, the avatar and the color the callback of
  \<open>body.profiles.map\<close> computes.
\<close>

definition profile_input :: "jsval \<Rightarrow> jstring \<times> jsval \<times> jsval" where
  "profile_input p =
     (trim (the_str (read p ''name'')),
      or_else (read p ''avatar'') (JStr []),
      or_else (read p ''color'') (JStr (lit ''#3B82F6'')))"

definition new_UserGroup ::
    "ext \<Rightarrow> nat \<Rightarrow> jstring \<Rightarrow> jsval \<Rightarrow> (jstring \<times> jsval \<times> jsval) list \<Rightarrow> group" where
  "new_UserGroup x n name type ps =
     \<lparr>g_id = new_oid x n,
      g_name = name,
      g_type = type,
      g_profiles =
        map (\<lambda>(i, (pn, pa, pc)). \<lparr>p_id = new_oid x (n + 1 + i), p_name = pn, p_avatar = pa, p_color = pc\<rparr>)
          (zip [0..<length ps] ps)\<rparr>"

definition POST_handler :: "ext \<Rightarrow> thrown + jsval \<Rightarrow> world \<Rightarrow> (thrown + response) \<times> world" where
  "POST_handler x json w =
     (case dbConnect x w of
        (Inl t, w1) \<Rightarrow> (Inl t, w1)
      | (Inr _, w1) \<Rightarrow>
     (case json of
        Inl t \<Rightarrow> (Inl t, w1)
      | Inr reqBody \<Rightarrow>
     (case get_prop reqBody ''name'' of
        Inl t \<Rightarrow> (Inl t, w1)
      | Inr name \<Rightarrow>
     if invalid_name name
     then (Inl (ThrowApp (createError_validation (lit ''Group name is required'') JUndefined)), w1)
     else
     (case get_prop reqBody ''type'' of
        Inl t \<Rightarrow> (Inl t, w1)
      | Inr type \<Rightarrow>
     if \<not> truthy type \<or> \<not> includes_value allowedGroupTypes type
     then (Inl (ThrowApp (createError_validation
             (lit ''Valid group type is required. Must be one of: '' @ join allowedGroupTypes (lit '', ''))
             JUndefined)), w1)
     else
     (case get_prop reqBody ''profiles'' of
        Inl t \<Rightarrow> (Inl t, w1)
      | Inr profiles \<Rightarrow>
     if \<not> isArray profiles \<or> length (the_items profiles) = 0
     then (Inl (ThrowApp (createError_validation (lit ''At least one profile is required'') JUndefined)), w1)
     else
     (case check_profiles (the_items profiles) of
        Some t \<Rightarrow> (Inl t, w1)
      | None \<Rightarrow>
     (let group = new_UserGroup x (generated w1) (trim (the_str name)) type
                    (map profile_input (the_items profiles));
          w2 = sent (Save group) (w1\<lparr>generated := generated w1 + 1 + length (the_items profiles)\<rparr>)
      in case save_error x group of
           None \<Rightarrow> (NextResponse_json (Doc group) 201, w2\<lparr>groups := groups w2 @ [group]\<rparr>)
         | Some error \<Rightarrow> (Inl (save_failed (lit ''Failed to create user group'') error), w2))))))))"

definition POST :: "ext \<Rightarrow> env \<Rightarrow> thrown + jsval \<Rightarrow> world \<Rightarrow> (thrown + response) \<times> world" where
  "POST x e json = withErrorHandling e (POST_handler x json)"

section \<open>src/app/api/profiles/[id]/route.ts\<close>

definition PUT_handler :: "ext \<Rightarrow> jstring \<Rightarrow> thrown + jsval \<Rightarrow> world \<Rightarrow> (thrown + response) \<times> world" where
  "PUT_handler x gid json w =
     (case dbConnect x w of
        (Inl t, w1) \<Rightarrow> (Inl t, w1)
      | (Inr _, w1) \<Rightarrow>
     (case json of
        Inl t \<Rightarrow> (Inl t, w1)
      | Inr reqBody \<Rightarrow>
     if \<not> oid_valid x gid
     then (Inl (ThrowApp (createError_validation (lit ''Invalid group ID format'') JUndefined)), w1)
     else
     (let w2 = sent (FindById (oid_of x gid)) w1 in
      case find_group (oid_of x gid) (groups w2) of
        None \<Rightarrow> (Inl (ThrowApp (createError_notFound (lit ''Group not found''))), w2)
      | Some doc \<Rightarrow>
     (case get_prop reqBody ''name'' of
        Inl t \<Rightarrow> (Inl t, w2)
      | Inr name \<Rightarrow>
     if \<not> truthy name
     then (Inl (ThrowApp (createError_validation (lit ''Group name is required'') JUndefined)), w2)
     else
     (case call_trim name ''body.name'' of
        Inl t \<Rightarrow> (Inl t, w2)
      | Inr trimmed \<Rightarrow>
     if trimmed = []
     then (Inl (ThrowApp (createError_validation (lit ''Group name is required'') JUndefined)), w2)
     else
     (case get_prop reqBody ''profiles'' of
        Inl t \<Rightarrow> (Inl t, w2)
      | Inr profiles \<Rightarrow>
     if \<not> isArray profiles \<or> length (the_items profiles) = 0
     then (Inl (ThrowApp (createError_validation (lit ''At least one profile is required'') JUndefined)), w2)
     else
     (let updated = doc\<lparr>g_name := trimmed, g_profiles := cast_profiles x (the_items profiles)\<rparr>;
          w3 = sent (Save updated) w2
      in case save_error x updated of
           None \<Rightarrow> (NextResponse_json (Doc updated) 200, w3\<lparr>groups := replace_doc updated (groups w3)\<rparr>)
         | Some error \<Rightarrow> (Inl (save_failed (lit ''Failed to update user group'') error), w3))))))))"

definition PUT :: "ext \<Rightarrow> env \<Rightarrow> jstring \<Rightarrow> thrown + jsval \<Rightarrow> world \<Rightarrow> (thrown + response) \<times> world" where
  "PUT x e gid json = withErrorHandling e (PUT_handler x gid json)"

text \<open>
  \<open>DELETE\<close>. \<open>profileIdToDelete\<close> is \<open>searchParams.get('profileId')\<close>, \<open>None\<close> for
  \<open>null\<close>. The two branches of \<open>if (profileIdToDelete)\<close> are \<open>delete_profile\<close> and
  \<open>delete_group\<close>.
\<close>

definition delete_profile :: "ext \<Rightarrow> jstring \<Rightarrow> jstring \<Rightarrow> world \<Rightarrow> (thrown + response) \<times> world" where
  "delete_profile x gid pid w1 =
     (if \<not> oid_valid x pid
      then (Inl (ThrowApp (createError_validation (lit ''Invalid profile ID format'') JUndefined)), w1)
      else
      (let w2 = sent (FindById (oid_of x gid)) w1 in
       case find_group (oid_of x gid) (groups w2) of
         None \<Rightarrow> (Inl (ThrowApp (createError_notFound (lit ''Group not found''))), w2)
       | Some doc \<Rightarrow>
      if length (g_profiles doc) \<le> 1
      then (Inl (ThrowApp (createError_validation
              (lit ''Cannot delete the last profile in a group. Delete the group instead.'') JUndefined)), w2)
      else
      (let pulled = doc\<lparr>g_profiles := pull (oid_of x pid) (g_profiles doc)\<rparr>;
           w3 = sent (DeleteTransactions ByProfile (oid_of x pid))
                  (w2\<lparr>transactions := delete_by_profile (oid_of x pid) (transactions w2)\<rparr>);
           w4 = sent (DeleteBudgets ByProfile (oid_of x pid))
                  (w3\<lparr>budgets := delete_by_profile (oid_of x pid) (budgets w3)\<rparr>);
           w5 = sent (Save pulled) w4
       in case save_error x pulled of
            None \<Rightarrow> (NextResponse_json (Doc pulled) 200,
                       w5\<lparr>groups := replace_doc pulled (groups w5)\<rparr>)
          | Some error \<Rightarrow> (Inl (ThrowError error), w5))))"

definition delete_group :: "ext \<Rightarrow> jstring \<Rightarrow> world \<Rightarrow> (thrown + response) \<times> world" where
  "delete_group x gid w1 =
     (let w2 = sent (FindByIdAndDelete (oid_of x gid)) w1 in
      case find_group (oid_of x gid) (groups w2) of
        None \<Rightarrow> (Inl (ThrowApp (createError_notFound (lit ''Group not found''))), w2)
      | Some doc \<Rightarrow>
     (let w3 = w2\<lparr>groups := remove_doc (oid_of x gid) (groups w2)\<rparr>;
          w4 = sent (DeleteTransactions ByGroup (oid_of x gid))
                 (w3\<lparr>transactions := delete_by_group (oid_of x gid) (transactions w3)\<rparr>);
          w5 = sent (DeleteBudgets ByGroup (oid_of x gid))
                 (w4\<lparr>budgets := delete_by_group (oid_of x gid) (budgets w4)\<rparr>)
      in (NextResponse_json
            (Json (JObj [(lit ''success'', JBool True),
                         (lit ''message'', JStr (lit ''Group deleted successfully''))]))
            200, w5)))"

definition DELETE_handler ::
    "ext \<Rightarrow> jstring \<Rightarrow> jstring option \<Rightarrow> world \<Rightarrow> (thrown + response) \<times> world" where
  "DELETE_handler x gid profileIdToDelete w =
     (if \<not> oid_valid x gid
      then (Inl (ThrowApp (createError_validation (lit ''Invalid group ID format'') JUndefined)), w)
      else
     (case dbConnect x w of
        (Inl t, w1) \<Rightarrow> (Inl t, w1)
      | (Inr _, w1) \<Rightarrow>
          (case profileIdToDelete of
             None \<Rightarrow> delete_group x gid w1
           | Some pid \<Rightarrow> if pid \<noteq> [] then delete_profile x gid pid w1 else delete_group x gid w1)))"

definition DELETE :: "ext \<Rightarrow> env \<Rightarrow> jstring \<Rightarrow> jstring option \<Rightarrow> world \<Rightarrow> (thrown + response) \<times> world" where
  "DELETE x e gid profileIdToDelete = withErrorHandling e (DELETE_handler x gid profileIdToDelete)"


section \<open>Sample values\<close>

text \<open>Concrete environments, requests and states, for evaluating the definitions.\<close>

definition dev_env :: env where
  "dev_env = \<lparr>NODE_ENV = Some (lit ''development''), DEBUG = None\<rparr>"

definition prod_env :: env where
  "prod_env = \<lparr>NODE_ENV = Some (lit ''production''), DEBUG = None\<rparr>"

definition sample_client :: jstring where
  "sample_client = lit ''203.0.113.7''"

definition sample_request :: mw_request where
  "sample_request = \<lparr>ip = Some (lit ''203.0.113.7''), pathname = lit ''/api/profiles''\<rparr>"

text \<open>
  A persistence layer for the samples: an id is a string of 24 hexadecimal digits and
  stands for its value, the connection succeeds, \<open>save()\<close> accepts every document, and
  a profile is cast field by field and keeps the \<open>_id\<close> it comes with, as a
  subdocument does with the persistence library (0 stands for the id of a profile that
  comes without one).
\<close>

definition hex_digit :: "unit16 \<Rightarrow> nat option" where
  "hex_digit c =
     (if 0x30 \<le> c \<and> c \<le> 0x39 then Some (unat c - 0x30)
      else if 0x41 \<le> c \<and> c \<le> 0x46 then Some (unat c - 0x41 + 10)
      else if 0x61 \<le> c \<and> c \<le> 0x66 then Some (unat c - 0x61 + 10)
      else None)"

definition sample_oid_valid :: "jstring \<Rightarrow> bool" where
  "sample_oid_valid s \<longleftrightarrow> length s = 24 \<and> list_all (\<lambda>c. hex_digit c \<noteq> None) s"

definition sample_oid_of :: "jstring \<Rightarrow> oid" where
  "sample_oid_of s = foldl (\<lambda>n c. 16 * n + (case hex_digit c of None \<Rightarrow> 0 | Some d \<Rightarrow> d)) 0 s"

definition sample_cast :: "jsval \<Rightarrow> group_profile" where
  "sample_cast p =
     \<lparr>p_id = (case read p ''_id'' of JStr s \<Rightarrow> sample_oid_of s | _ \<Rightarrow> 0),
      p_name = the_str (read p ''name''),
      p_avatar = read p ''avatar'',
      p_color = read p ''color''\<rparr>"

definition sample_ext :: ext where
  "sample_ext =
     \<lparr>oid_valid = sample_oid_valid,
      oid_of = sample_oid_of,
      connect_error = None,
      new_oid = (\<lambda>n. 4096 + n),
      cast_profiles = map sample_cast,
      save_error = (\<lambda>g. None)\<rparr>"

text \<open>The same with a database that cannot be reached.\<close>

definition unreachable_ext :: ext where
  "unreachable_ext =
     sample_ext\<lparr>connect_error :=
       Some \<lparr>ename = lit ''MongooseServerSelectionError'',
             emessage = lit ''connect ECONNREFUSED 127.0.0.1:27017'',
             eprops = []\<rparr>\<rparr>"

definition empty_world :: world where
  "empty_world = \<lparr>conn = False, groups = [], transactions = [], budgets = [], generated = 0, trace = []\<rparr>"

text \<open>
  A database with one Group of two Profiles (ids 1 and 2 in the Group 16), a Transaction
  and a Budget of each Profile, and a Transaction that refers to a Profile (id 3) the
  Group does not have.
\<close>

definition smiths :: group where
  "smiths =
     \<lparr>g_id = 16, g_name = lit ''Smiths'', g_type = JStr (lit ''family''),
      g_profiles =
        [\<lparr>p_id = 1, p_name = lit ''Alice'', p_avatar = JStr [], p_color = JStr (lit ''#3B82F6'')\<rparr>,
         \<lparr>p_id = 2, p_name = lit ''Bob'', p_avatar = JStr [], p_color = JStr (lit ''#3B82F6'')\<rparr>]\<rparr>"

definition smiths_world :: world where
  "smiths_world =
     \<lparr>conn = True,
      groups = [smiths],
      transactions =
        [\<lparr>profileId = 1, groupId = 16, c_data = JNull\<rparr>,
         \<lparr>profileId = 3, groupId = 16, c_data = JNull\<rparr>,
         \<lparr>profileId = 2, groupId = 16, c_data = JNull\<rparr>],
      budgets =
        [\<lparr>profileId = 3, groupId = 16, c_data = JNull\<rparr>,
         \<lparr>profileId = 2, groupId = 16, c_data = JNull\<rparr>],
      generated = 0,
      trace = []\<rparr>"

definition id_16 :: jstring where
  "id_16 = lit ''000000000000000000000010''"

definition id_1 :: jstring where
  "id_1 = lit ''000000000000000000000001''"

definition id_3 :: jstring where
  "id_3 = lit ''000000000000000000000003''"

text \<open>Request bodies.\<close>

definition smiths_body :: jsval where
  "smiths_body =
     JObj [(lit ''name'', JStr (lit ''Smiths'')),
           (lit ''type'', JStr (lit ''family'')),
           (lit ''profiles'', JArr [JObj [(lit ''name'', JStr (lit ''Alice''))]])]"

definition no_profiles_body :: jsval where
  "no_profiles_body =
     JObj [(lit ''name'', JStr (lit ''Smiths'')),
           (lit ''type'', JStr (lit ''family'')),
           (lit ''profiles'', JArr [])]"

text \<open>
  The body of an update that gives two Profiles the same \<open>_id\<close>, the one of the first
  Profile of the Smiths, and the Group the update makes of the Smiths.
\<close>

definition twins_body :: jsval where
  "twins_body =
     JObj [(lit ''name'', JStr (lit ''Smiths'')),
           (lit ''profiles'',
            JArr [JObj [(lit ''_id'', JStr id_1), (lit ''name'', JStr (lit ''Alice''))],
                  JObj [(lit ''_id'', JStr id_1), (lit ''name'', JStr (lit ''Bob''))]])]"

definition twins :: group where
  "twins =
     \<lparr>g_id = 16, g_name = lit ''Smiths'', g_type = JStr (lit ''family''),
      g_profiles =
        [\<lparr>p_id = 1, p_name = lit ''Alice'', p_avatar = JUndefined, p_color = JUndefined\<rparr>,
         \<lparr>p_id = 1, p_name = lit ''Bob'', p_avatar = JUndefined, p_color = JUndefined\<rparr>]\<rparr>"

definition not_json :: thrown where
  "not_json = ThrowError \<lparr>ename = lit ''SyntaxError'', emessage = lit ''Unexpected end of JSON input'', eprops = []\<rparr>"

section \<open>Sanitization: lemmas\<close>

subsection \<open>The replacements, one code unit at a time\<close>

lemma replace_all_append: "replace_all c r (xs @ ys) = replace_all c r xs @ replace_all c r ys"
  by (simp add: replace_all_def)

lemma replace_all_concat: "replace_all c r (concat xss) = concat (map (replace_all c r) xss)"
  by (induction xss) (simp_all add: replace_all_append, simp add: replace_all_def)

lemma replace_all_bind:
  "replace_all c r (concat (map f s)) = concat (map (\<lambda>x. replace_all c r (f x)) s)"
  by (simp add: replace_all_concat comp_def)

lemma replace_all_units: "replace_all c r s = concat (map (\<lambda>x. replace_all c r [x]) s)"
  by (simp add: replace_all_def)

lemma chain_unit:
  "replace_all 0x2F (lit ''&#x2F;'')
        (replace_all 0x27 (lit ''&#x27;'')
        (replace_all 0x22 (lit ''&quot;'')
        (replace_all 0x26 (lit ''&amp;'')
        (replace_all 0x3E (lit ''&gt;'')
        (replace_all 0x3C (lit ''&lt;'') [x]))))) = escape_unit x"
  by (simp add: replace_all_def escape_unit_def lit_def)

lemma chain_all:
  "replace_all 0x2F (lit ''&#x2F;'')
        (replace_all 0x27 (lit ''&#x27;'')
        (replace_all 0x22 (lit ''&quot;'')
        (replace_all 0x26 (lit ''&amp;'')
        (replace_all 0x3E (lit ''&gt;'')
        (replace_all 0x3C (lit ''&lt;'') s))))) = concat (map escape_unit s)"
proof -
  have "replace_all 0x3C (lit ''&lt;'') s = concat (map (\<lambda>x. replace_all 0x3C (lit ''&lt;'') [x]) s)"
    by (rule replace_all_units)
  then show ?thesis
    by (simp only: replace_all_bind chain_unit)
qed

lemma escape_unit_ws: "is_ws c \<Longrightarrow> escape_unit c = [c]"
  by (auto simp: is_ws_def escape_unit_def)

lemma escape_unit_hd: "\<not> is_ws c \<Longrightarrow> escape_unit c \<noteq> [] \<and> \<not> is_ws (hd (escape_unit c))"
  by (simp add: escape_unit_def lit_def is_ws_def)

lemma escape_unit_last: "\<not> is_ws c \<Longrightarrow> escape_unit c \<noteq> [] \<and> \<not> is_ws (last (escape_unit c))"
  by (simp add: escape_unit_def lit_def is_ws_def)

lemma dropWhile_escape:
  "dropWhile is_ws (concat (map escape_unit s)) = concat (map escape_unit (dropWhile is_ws s))"
proof (induction s)
  case Nil
  show ?case by simp
next
  case (Cons c s)
  show ?case
  proof (cases "is_ws c")
    case True
    with Cons show ?thesis by (simp add: escape_unit_ws)
  next
    case False
    from escape_unit_hd [OF False] obtain y ys where e: "escape_unit c = y # ys" and y: "\<not> is_ws y"
      by (cases "escape_unit c") auto
    with False show ?thesis by simp
  qed
qed

lemma rev_escape:
  "rev (concat (map escape_unit s)) = concat (map (\<lambda>c. rev (escape_unit c)) (rev s))"
  by (simp add: rev_concat rev_map comp_def)

lemma dropWhile_rev_escape:
  "dropWhile is_ws (concat (map (\<lambda>c. rev (escape_unit c)) s))
     = concat (map (\<lambda>c. rev (escape_unit c)) (dropWhile is_ws s))"
proof (induction s)
  case Nil
  show ?case by simp
next
  case (Cons c s)
  show ?case
  proof (cases "is_ws c")
    case True
    with Cons show ?thesis by (simp add: escape_unit_ws)
  next
    case False
    from escape_unit_last [OF False] have "rev (escape_unit c) \<noteq> [] \<and> \<not> is_ws (hd (rev (escape_unit c)))"
      by (simp add: hd_rev)
    then obtain y ys where e: "rev (escape_unit c) = y # ys" and y: "\<not> is_ws y"
      by (cases "rev (escape_unit c)") auto
    with False show ?thesis by simp
  qed
qed

lemma trim_escape: "trim (concat (map escape_unit s)) = concat (map escape_unit (trim s))"
proof -
  have "trim (concat (map escape_unit s))
      = rev (dropWhile is_ws (rev (concat (map escape_unit (dropWhile is_ws s)))))"
    by (simp add: trim_def dropWhile_escape)
  also have "\<dots> = rev (concat (map (\<lambda>c. rev (escape_unit c)) (dropWhile is_ws (rev (dropWhile is_ws s)))))"
    by (simp only: rev_escape dropWhile_rev_escape)
  also have "\<dots> = concat (map escape_unit (trim s))"
    by (simp add: trim_def rev_concat rev_map comp_def)
  finally show ?thesis .
qed

lemma sanitizeString_units: "sanitizeString s = concat (map escape_unit (trim s))"
proof (cases "s = []")
  case True
  then show ?thesis by (simp add: sanitizeString_def trim_def)
next
  case False
  then show ?thesis by (simp only: sanitizeString_def chain_all trim_escape if_False)
qed

subsection \<open>trim\<close>

lemma trim_hd: "trim s \<noteq> [] \<Longrightarrow> \<not> is_ws (hd (trim s))"
proof -
  assume ne: "trim s \<noteq> []"
  let ?t = "dropWhile is_ws s"
  have "trim s = []" if d: "?t = []" unfolding trim_def d by simp
  with ne have t: "?t \<noteq> []" by blast
  then have h: "\<not> is_ws (hd ?t)" by (rule hd_dropWhile)
  have "rev ?t \<noteq> []" using t by simp
  have "trim s = rev (dropWhile is_ws (rev ?t))" by (simp add: trim_def)
  then obtain k where k: "trim s = take k ?t"
    by (metis dropWhile_eq_drop rev_drop rev_rev_ident)
  with ne have "hd (trim s) = hd ?t" by (cases k; cases ?t) auto
  with h show ?thesis by simp
qed

lemma trim_last: "trim s \<noteq> [] \<Longrightarrow> \<not> is_ws (last (trim s))"
proof -
  assume ne: "trim s \<noteq> []"
  then have "dropWhile is_ws (rev (dropWhile is_ws s)) \<noteq> []" by (simp add: trim_def)
  then have "\<not> is_ws (hd (dropWhile is_ws (rev (dropWhile is_ws s))))" by (rule hd_dropWhile)
  then show ?thesis using ne by (simp add: trim_def last_rev)
qed

lemma trim_fix: "s = [] \<or> (\<not> is_ws (hd s) \<and> \<not> is_ws (last s)) \<Longrightarrow> trim s = s"
proof (cases "s = []")
  case True
  then show ?thesis by (simp add: trim_def)
next
  case False
  assume "s = [] \<or> (\<not> is_ws (hd s) \<and> \<not> is_ws (last s))"
  with False have h: "\<not> is_ws (hd s)" and l: "\<not> is_ws (last s)" by auto
  from False h have 1: "dropWhile is_ws s = s" by (cases s) auto
  from False l have "\<not> is_ws (hd (rev s))" by (simp add: hd_rev)
  with False have 2: "dropWhile is_ws (rev s) = rev s" by (cases "rev s") auto
  show ?thesis by (simp add: trim_def 1 2)
qed

lemma trim_trim: "trim (trim s) = trim s"
  by (rule trim_fix) (use trim_hd trim_last in blast)

lemma trim_all_ws: "\<forall>c \<in> set s. is_ws c \<Longrightarrow> trim s = []"
proof -
  assume "\<forall>c \<in> set s. is_ws c"
  then have d: "dropWhile is_ws s = []" by (simp add: dropWhile_eq_Nil_conv)
  show ?thesis unfolding trim_def d by simp
qed

lemma set_trim: "set (trim s) \<subseteq> set s"
proof -
  have "set (trim s) = set (dropWhile is_ws (rev (dropWhile is_ws s)))" by (simp add: trim_def)
  also have "\<dots> \<subseteq> set (rev (dropWhile is_ws s))" by (rule set_dropWhileD [THEN subsetI])
  also have "\<dots> \<subseteq> set s" using set_dropWhileD by fastforce
  finally show ?thesis .
qed


subsection \<open>Strings without the six characters\<close>

lemma escape_unit_plain: "c \<notin> set specials \<Longrightarrow> escape_unit c = [c]"
  by (simp add: specials_def escape_unit_def)

lemma escape_clean: "\<forall>c \<in> set s. c \<notin> set specials \<Longrightarrow> concat (map escape_unit s) = s"
  by (induction s) (simp_all add: escape_unit_plain)

lemma amp_in_escape_unit: "c \<in> set specials \<Longrightarrow> 0x26 \<in> set (escape_unit c)"
  by (auto simp: specials_def escape_unit_def lit_def)

lemma length_escape_unit: "1 \<le> length (escape_unit c)"
  by (simp add: escape_unit_def lit_def)

lemma length_escape_unit_special: "c \<in> set specials \<Longrightarrow> 1 < length (escape_unit c)"
  by (auto simp: specials_def escape_unit_def lit_def)

lemma length_escape: "length s \<le> length (concat (map escape_unit s))"
proof (induction s)
  case Nil
  show ?case by simp
next
  case (Cons c s)
  with length_escape_unit [of c] show ?case by simp
qed

lemma length_escape_special:
  "\<exists>c \<in> set s. c \<in> set specials \<Longrightarrow> length s < length (concat (map escape_unit s))"
proof (induction s)
  case Nil
  then show ?case by simp
next
  case (Cons c s)
  show ?case
  proof (cases "c \<in> set specials")
    case True
    with length_escape_unit_special [of c] length_escape [of s] show ?thesis by simp
  next
    case False
    with Cons.prems have "\<exists>c \<in> set s. c \<in> set specials" by auto
    with Cons.IH length_escape_unit [of c] show ?thesis by simp
  qed
qed

lemma amp_in_escape:
  "\<exists>c \<in> set s. c \<in> set specials \<Longrightarrow> 0x26 \<in> set (concat (map escape_unit s))"
  using amp_in_escape_unit by auto

lemma sanitizeString_clean:
  assumes "\<forall>c \<in> set s. c \<notin> set specials"
  shows "sanitizeString s = trim s"
proof -
  from assms set_trim [of s] have "\<forall>c \<in> set (trim s). c \<notin> set specials" by blast
  then show ?thesis by (simp add: sanitizeString_units escape_clean)
qed

lemma sanitizeString_twice_clean:
  assumes "\<forall>c \<in> set s. c \<notin> set specials"
  shows "sanitizeString (sanitizeString s) = sanitizeString s"
proof -
  from assms set_trim [of s] have "\<forall>c \<in> set (trim s). c \<notin> set specials" by blast
  then have "sanitizeString (trim s) = trim (trim s)" by (rule sanitizeString_clean)
  with assms show ?thesis by (simp add: sanitizeString_clean trim_trim)
qed

lemma sanitizeString_hd_last:
  "sanitizeString s = [] \<or> (\<not> is_ws (hd (sanitizeString s)) \<and> \<not> is_ws (last (sanitizeString s)))"
proof (cases "s = []")
  case True
  then show ?thesis by (simp add: sanitizeString_def)
next
  case False
  then have "sanitizeString s = trim (concat (map escape_unit s))"
    by (simp only: sanitizeString_def chain_all if_False)
  then show ?thesis using trim_hd trim_last by metis
qed

lemma trim_sanitizeString: "trim (sanitizeString s) = sanitizeString s"
  by (rule trim_fix) (rule sanitizeString_hd_last)

lemma sanitizeString_twice_special:
  assumes "\<exists>c \<in> set (trim s). c \<in> set specials"
  shows "length (sanitizeString s) < length (sanitizeString (sanitizeString s))"
proof -
  let ?t = "sanitizeString s"
  have "0x26 \<in> set ?t" using assms by (simp only: sanitizeString_units amp_in_escape)
  then have "\<exists>c \<in> set ?t. c \<in> set specials" by (auto simp: specials_def)
  then have "length ?t < length (concat (map escape_unit ?t))" by (rule length_escape_special)
  moreover have "sanitizeString ?t = concat (map escape_unit ?t)"
    by (simp add: sanitizeString_units [of ?t] trim_sanitizeString)
  ultimately show ?thesis by simp
qed

lemma sanitizeString_idem_iff:
  "sanitizeString (sanitizeString s) = sanitizeString s \<longleftrightarrow> (\<forall>c \<in> set (trim s). c \<notin> set specials)"
proof
  assume eq: "sanitizeString (sanitizeString s) = sanitizeString s"
  show "\<forall>c \<in> set (trim s). c \<notin> set specials"
  proof (rule ccontr)
    assume "\<not> (\<forall>c \<in> set (trim s). c \<notin> set specials)"
    then have "\<exists>c \<in> set (trim s). c \<in> set specials" by blast
    from sanitizeString_twice_special [OF this] eq show False by simp
  qed
next
  assume c: "\<forall>c \<in> set (trim s). c \<notin> set specials"
  then have "sanitizeString s = trim s" by (simp add: sanitizeString_units escape_clean)
  moreover from c have "sanitizeString (trim s) = trim (trim s)" by (rule sanitizeString_clean)
  ultimately show "sanitizeString (sanitizeString s) = sanitizeString s" by (simp add: trim_trim)
qed

lemma dropWhile_keeps: "x \<in> set xs \<Longrightarrow> \<not> P x \<Longrightarrow> x \<in> set (dropWhile P xs)"
  by (induction xs) auto

lemma trim_keeps: "c \<in> set s \<Longrightarrow> \<not> is_ws c \<Longrightarrow> c \<in> set (trim s)"
  by (simp add: trim_def dropWhile_keeps)

lemma special_not_ws: "c \<in> set specials \<Longrightarrow> \<not> is_ws c"
  by (auto simp: specials_def is_ws_def)

lemma specials_trim: "(\<forall>c \<in> set (trim s). c \<notin> set specials) \<longleftrightarrow> (\<forall>c \<in> set s. c \<notin> set specials)"
  using set_trim [of s] trim_keeps [of _ s] special_not_ws by blast

subsection \<open>The functions with the tests of the source\<close>

lemma digit_unit: "n < 10 \<Longrightarrow> (of_nat (48 + n) :: unit16) \<noteq> 0x5F"
proof
  assume n: "n < 10" and e: "(of_nat (48 + n) :: unit16) = 0x5F"
  have "unat (of_nat (48 + n) :: unit16) = (48 + n) mod 2 ^ LENGTH(16)"
    by (rule unat_of_nat)
  also from n have "\<dots> = 48 + n" by simp
  finally have "unat (of_nat (48 + n) :: unit16) = 48 + n" .
  moreover from e have "unat (of_nat (48 + n) :: unit16) = 95" by (simp only: unat_numeral) simp
  ultimately show False using n by simp
qed

lemma digits_units: "c \<in> set (digits n) \<Longrightarrow> c \<noteq> 0x5F"
proof (induction n arbitrary: c rule: digits.induct)
  case (1 n)
  show ?case
  proof (cases "n < 10")
    case True
    then have "digits n = [of_nat (48 + n)]" by (subst digits.simps) simp
    with "1.prems" digit_unit [OF True] show ?thesis by simp
  next
    case False
    then have d: "digits n = digits (n div 10) @ [of_nat (48 + n mod 10)]" by (subst digits.simps) simp
    have "n mod 10 < 10" by simp
    from digit_unit [OF this] "1.IH" [OF False] "1.prems" show ?thesis
      unfolding d by auto
  qed
qed

lemma index_keys_proto: "key \<in> set (index_keys n) \<Longrightarrow> key \<noteq> lit ''__proto__''"
proof
  assume k: "key \<in> set (index_keys n)" and e: "key = lit ''__proto__''"
  from k obtain i where i: "key = digits i" by (auto simp: index_keys_def)
  have "0x5F \<in> set (lit ''__proto__'')" by (simp add: lit_def)
  then have "0x5F \<in> set (digits i)" unfolding i [symmetric] e .
  with digits_units show False by blast
qed

lemma filter_index_keys:
  "filter (\<lambda>(key, v). key \<noteq> lit ''__proto__'') (zip (index_keys n) xs) = zip (index_keys n) xs"
proof -
  have "key \<noteq> lit ''__proto__''" if "(key, v) \<in> set (zip (index_keys n) xs)" for key v
    using that index_keys_proto by (blast dest: set_zip_leftD)
  then show ?thesis by (intro filter_True) auto
qed

lemma sanitizeObject_array:
  "sanitizeObject (JObj (zip (index_keys n) ys))
     = JObj (map (\<lambda>(key, v). (key, sanitizeValue v)) (zip (index_keys n) ys))"
  by (simp only: sanitizeObject.simps filter_index_keys)

lemma sanitizeObject_source:
  "sanitizeObject obj =
     (if \<not> truthy obj \<or> typeof obj \<noteq> ''object'' then obj
      else JObj (map (\<lambda>(key, v). (key, sanitizeValue v))
                  (filter (\<lambda>(key, v). key \<noteq> lit ''__proto__'') (entries obj))))"
proof (cases obj)
  case (JArr xs)
  have "sanitizeObject (JArr xs) = JObj (map (\<lambda>(key, v). (key, sanitizeValue v)) (zip (index_keys (length xs)) xs))"
    by (simp add: zip_map2)
  then show ?thesis unfolding JArr by (simp only: filter_index_keys entries.simps truthy.simps typeof.simps) simp
qed simp_all

lemma sanitizeValue_source:
  "sanitizeValue v =
     (if typeof v = ''string'' then JStr (sanitizeString (the_str v))
      else if isArray v then JArr (map sanitizeItem (the_items v))
      else if truthy v \<and> typeof v = ''object'' then sanitizeObject v
      else v)"
  by (cases v) simp_all

lemma sanitizeItem_source:
  "sanitizeItem item =
     (if typeof item = ''string'' then JStr (sanitizeString (the_str item))
      else if typeof item = ''object'' then sanitizeObject item
      else item)"
  by (cases item) simp_all

subsection \<open>Idempotence on clean values\<close>

lemma filter_proto_map:
  "filter (\<lambda>(key, v). key \<noteq> lit ''__proto__'') (map (\<lambda>(key, v). (key, f v)) kvs)
     = map (\<lambda>(key, v). (key, f v)) (filter (\<lambda>(key, v). key \<noteq> lit ''__proto__'') kvs)"
  by (induction kvs) auto

lemma sanitize_twice_clean:
  shows "clean x \<Longrightarrow> sanitizeObject (sanitizeObject x) = sanitizeObject x"
    and "clean y \<Longrightarrow> sanitizeValue (sanitizeValue y) = sanitizeValue y"
    and "clean z \<Longrightarrow> sanitizeItem (sanitizeItem z) = sanitizeItem z"
proof (induction x and y and z rule: sanitizeObject_sanitizeValue_sanitizeItem.induct)
  case (1 kvs)
  let ?kept = "filter (\<lambda>(key, v). key \<noteq> lit ''__proto__'') kvs"
  have "(key, sanitizeValue (sanitizeValue v)) = (key, sanitizeValue v)" if "(key, v) \<in> set ?kept" for key v
    using "1.IH" [OF that refl] "1.prems" that by auto
  then have "map ((\<lambda>(key, v). (key, sanitizeValue v)) \<circ> (\<lambda>(key, v). (key, sanitizeValue v))) ?kept
      = map (\<lambda>(key, v). (key, sanitizeValue v)) ?kept"
    by (intro map_cong) auto
  then show ?case by (simp add: filter_proto_map)
next
  case (2 xs)
  have m: "map (sanitizeValue \<circ> sanitizeValue) xs = map sanitizeValue xs"
    using 2 by (intro map_cong) auto
  have a: "sanitizeObject (JArr xs) = JObj (zip (index_keys (length xs)) (map sanitizeValue xs))"
    by simp
  have "map (\<lambda>(key, v). (key, sanitizeValue v)) (zip (index_keys (length xs)) (map sanitizeValue xs))
      = zip (index_keys (length xs)) (map sanitizeValue (map sanitizeValue xs))"
    by (simp only: zip_map2)
  also have "\<dots> = zip (index_keys (length xs)) (map sanitizeValue xs)"
    by (simp only: map_map m)
  finally show ?case by (simp only: a sanitizeObject_array)
next
  case (4 s)
  then show ?case by (simp add: sanitizeString_twice_clean)
next
  case (5 xs)
  have "map (sanitizeItem \<circ> sanitizeItem) xs = map sanitizeItem xs"
    using 5 by (intro map_cong) auto
  then show ?case by simp
next
  case (6 kvs)
  then show ?case by (cases "sanitizeObject (JObj kvs)") auto
next
  case (8 s)
  then show ?case by (simp add: sanitizeString_twice_clean)
next
  case (9 xs)
  then show ?case by (cases "sanitizeObject (JArr xs)") auto
next
  case (10 kvs)
  then show ?case by (cases "sanitizeObject (JObj kvs)") auto
qed simp_all

section \<open>Sanitization: the claims\<close>

text \<open>
  C1, as the specification states it: sanitizing twice gives what sanitizing once gives,
  for every string and for every object. The code does not do this: the \<open>&\<close> of
  \<open>R&D\<close> becomes \<open>&amp;\<close>, and the \<open>&\<close> of that is replaced again.
\<close>

theorem sanitize_not_idempotent:
  "sanitizeString (sanitizeString (lit ''R&D'')) \<noteq> sanitizeString (lit ''R&D'') \<and>
   sanitizeObject (sanitizeObject (JObj [(lit ''name'', JStr (lit ''R&D''))]))
     \<noteq> sanitizeObject (JObj [(lit ''name'', JStr (lit ''R&D''))])"
  by (simp add: sanitizeString_def replace_all_def trim_def is_ws_def lit_def)

text \<open>
  C1, amended: sanitizing a string twice gives what sanitizing it once gives exactly when
  the string has none of the six characters \<open>< > & " ' /\<close>; and sanitizing an object
  twice gives what sanitizing it once gives whenever no string in it, at any depth, has
  one of them.
\<close>

theorem sanitize_idempotent_without_specials:
  "(sanitizeString (sanitizeString s) = sanitizeString s \<longleftrightarrow> (\<forall>c \<in> set s. c \<notin> set specials)) \<and>
   (clean x \<longrightarrow> sanitizeObject (sanitizeObject x) = sanitizeObject x)"
  by (simp add: sanitizeString_idem_iff specials_trim sanitize_twice_clean)

theorem sanitize_idempotent_without_specials_witness:
  "clean (JObj [(lit ''name'', JStr (lit '' Alice '')), (lit ''tags'', JArr [JStr (lit ''a b''), JNum 3])]) \<and>
   sanitizeObject (sanitizeObject
       (JObj [(lit ''name'', JStr (lit '' Alice '')), (lit ''tags'', JArr [JStr (lit ''a b''), JNum 3])]))
     = sanitizeObject
       (JObj [(lit ''name'', JStr (lit '' Alice '')), (lit ''tags'', JArr [JStr (lit ''a b''), JNum 3])]) \<and>
   set (lit '' Alice '') \<inter> set specials = {} \<and>
   sanitizeString (sanitizeString (lit '' Alice '')) = sanitizeString (lit '' Alice '')"
proof -
  let ?x = "JObj [(lit ''name'', JStr (lit '' Alice '')), (lit ''tags'', JArr [JStr (lit ''a b''), JNum 3])]"
  have c: "clean ?x" by (simp add: lit_def specials_def)
  have s: "\<forall>c \<in> set (lit '' Alice ''). c \<notin> set specials" by (simp add: lit_def specials_def)
  from sanitize_idempotent_without_specials [of "lit '' Alice ''" ?x] c s
  show ?thesis by blast
qed

text \<open>
  C2: \<open>sanitizeObject\<close> does not leave every non-string field as it was. The callback
  of \<open>value.map\<close> hands every item of type \<open>object\<close> to \<open>sanitizeObject\<close>, an
  array too (the loop over the fields, beside it, tests \<open>Array.isArray\<close> first), and
  \<open>sanitizeObject\<close> answers with a plain object: in \<open>{m: [[true]]}\<close> the inner array
  \<open>[true]\<close> comes back as the object \<open>{"0": true}\<close>. And a field named
  \<open>__proto__\<close>, as \<open>JSON.parse\<close> makes one, is not in the result, whatever its
  value: \<open>{"__proto__": 5, "n": 1}\<close> comes back as \<open>{n: 1}\<close>.
\<close>

theorem sanitizeObject_changes_non_string_fields:
  "sanitizeObject (JObj [(lit ''m'', JArr [JArr [JBool True]])])
     = JObj [(lit ''m'', JArr [JObj [(lit ''0'', JBool True)]])] \<and>
   sanitizeObject (JObj [(lit ''__proto__'', JNum 5), (lit ''n'', JNum 1)]) = JObj [(lit ''n'', JNum 1)]"
  by (simp add: index_keys_def digits.simps [of 0] lit_def)

text \<open>
  C9: \<open>sanitizeString\<close> trims. Its result is the escaped input with the whitespace at
  both ends removed, so it neither starts nor ends with whitespace; and a string of
  whitespace only, like the empty string, gives the empty string.
\<close>

theorem sanitizeString_trims:
  "sanitizeString s = trim (concat (map escape_unit s)) \<and>
   (sanitizeString s = [] \<or> (\<not> is_ws (hd (sanitizeString s)) \<and> \<not> is_ws (last (sanitizeString s)))) \<and>
   ((\<forall>c \<in> set s. is_ws c) \<longrightarrow> sanitizeString s = [])"
  using sanitizeString_hd_last [of s]
  by (simp add: sanitizeString_units trim_escape trim_all_ws)

theorem sanitizeString_trims_witness:
  "list_all is_ws (lit ''   '') \<and> sanitizeString (lit ''   '') = [] \<and>
   sanitizeString (lit '' a<b '') \<noteq> [] \<and>
   \<not> is_ws (hd (sanitizeString (lit '' a<b ''))) \<and> \<not> is_ws (last (sanitizeString (lit '' a<b '')))"
proof -
  have w: "\<forall>c \<in> set (lit ''   ''). is_ws c" by (simp add: lit_def is_ws_def)
  have n: "sanitizeString (lit '' a<b '') \<noteq> []"
    by (simp add: lit_def sanitizeString_def replace_all_def trim_def is_ws_def)
  from sanitizeString_trims [of "lit ''   ''"] sanitizeString_trims [of "lit '' a<b ''"] w n
  show ?thesis unfolding list_all_iff by blast
qed

section \<open>The error boundary: lemmas\<close>

lemma NextResponse_json_accepts:
  "200 \<le> st \<Longrightarrow> st \<le> 599 \<Longrightarrow> \<not> null_body_status st \<Longrightarrow>
     NextResponse_json b st = Inr (json_response b st)"
  by (simp add: NextResponse_json_def)

lemma NextResponse_json_Inr:
  "NextResponse_json b st = Inr r \<Longrightarrow> r = json_response b st"
  by (simp add: NextResponse_json_def split: if_splits)

lemma NextResponse_json_200 [simp]: "NextResponse_json b 200 = Inr (json_response b 200)"
  by (simp add: NextResponse_json_def null_body_status_def)

lemma NextResponse_json_201 [simp]: "NextResponse_json b 201 = Inr (json_response b 201)"
  by (simp add: NextResponse_json_def null_body_status_def)

lemma NextResponse_json_400 [simp]: "NextResponse_json b 400 = Inr (json_response b 400)"
  by (simp add: NextResponse_json_def null_body_status_def)

lemma NextResponse_json_404 [simp]: "NextResponse_json b 404 = Inr (json_response b 404)"
  by (simp add: NextResponse_json_def null_body_status_def)

lemma NextResponse_json_500 [simp]: "NextResponse_json b 500 = Inr (json_response b 500)"
  by (simp add: NextResponse_json_def null_body_status_def)

lemma handleApiError_app:
  "handleApiError e (ThrowApp a) =
     NextResponse_json
       (Json (error_envelope (ErrorType_value (errtype a)) (message a)
          (if \<not> production e \<and> truthy (details a) then Some (details a) else None)))
       (statusCode a)"
  by (simp add: handleApiError_def error_envelope_def)

lemma handleApiError_error:
  "handleApiError e (ThrowError x) =
     Inr (json_response
       (Json (error_envelope (ErrorType_value SERVER)
          (if production e then lit ''Internal server error'' else emessage x) None))
       500)"
  by (simp add: handleApiError_def error_envelope_def)

lemma handleApiError_other:
  "handleApiError e (ThrowOther v) =
     Inr (json_response
       (Json (error_envelope (ErrorType_value SERVER) (lit ''Internal server error'') None)) 500)"
  by (simp add: handleApiError_def error_envelope_def)

lemma error_envelope_inject:
  "error_envelope t m d = error_envelope t' m' d' \<longleftrightarrow> t = t' \<and> m = m' \<and> d = d'"
  by (auto simp: error_envelope_def split: option.splits)

lemma handleApiError_app_Inr:
  assumes "handleApiError e (ThrowApp a) = Inr r"
  shows "r = json_response
               (Json (error_envelope (ErrorType_value (errtype a)) (message a)
                  (if \<not> production e \<and> truthy (details a) then Some (details a) else None)))
               (statusCode a)"
  using assms unfolding handleApiError_app by (rule NextResponse_json_Inr)

lemma handleApiError_envelope:
  assumes "handleApiError e x = Inr r"
  shows "\<exists>t m d. r = json_response (Json (error_envelope t m d)) (status r)"
proof (cases x)
  case (ThrowApp a)
  with assms have r: "r = json_response
               (Json (error_envelope (ErrorType_value (errtype a)) (message a)
                  (if \<not> production e \<and> truthy (details a) then Some (details a) else None)))
               (statusCode a)"
    by (simp only: handleApiError_app_Inr)
  then have "status r = statusCode a" by (simp add: json_response_def)
  with r show ?thesis by metis
next
  case (ThrowError y)
  with assms have r: "r = json_response
       (Json (error_envelope (ErrorType_value SERVER)
          (if production e then lit ''Internal server error'' else emessage y) None)) 500"
    by (simp only: handleApiError_error sum.inject)
  then have "status r = 500" by (simp add: json_response_def)
  with r show ?thesis by metis
next
  case (ThrowOther v)
  with assms have r: "r = json_response
       (Json (error_envelope (ErrorType_value SERVER) (lit ''Internal server error'') None)) 500"
    by (simp only: handleApiError_other sum.inject)
  then have "status r = 500" by (simp add: json_response_def)
  with r show ?thesis by metis
qed

lemma handleApiError_details:
  assumes "handleApiError e x = Inr r" and "body r = Json (error_envelope t m (Some d))"
  shows "\<not> production e \<and> truthy d \<and> (\<exists>a. x = ThrowApp a \<and> details a = d)"
proof (cases x)
  case (ThrowApp a)
  with assms have "r = json_response
               (Json (error_envelope (ErrorType_value (errtype a)) (message a)
                  (if \<not> production e \<and> truthy (details a) then Some (details a) else None)))
               (statusCode a)"
    by (simp only: handleApiError_app_Inr)
  then have "body r = Json (error_envelope (ErrorType_value (errtype a)) (message a)
                  (if \<not> production e \<and> truthy (details a) then Some (details a) else None))"
    by (simp add: json_response_def)
  with assms(2) ThrowApp show ?thesis
    by (simp add: error_envelope_inject split: if_splits)
next
  case (ThrowError y)
  with assms show ?thesis
    by (auto simp: handleApiError_error json_response_def error_envelope_inject)
next
  case (ThrowOther v)
  with assms show ?thesis
    by (auto simp: handleApiError_other json_response_def error_envelope_inject)
qed

section \<open>The error boundary: the claim\<close>

text \<open>
  C3, as the specification states it: whatever is thrown, the boundary answers with a
  body and a status code, and what is thrown and is no \<open>AppError\<close> is answered with its
  raw message in development. The code does not do this. In development, a thrown
  object \<open>{message: "boom"}\<close> that is no \<open>Error\<close> is answered with the generic
  message, not with \<open>boom\<close>: only the branch \<open>error instanceof Error\<close> reads a message.
  And for an \<open>AppError\<close> with the status code 1000 there is no response at all:
  \<open>NextResponse.json\<close> throws a \<open>RangeError\<close>.
\<close>

theorem handleApiError_generic_message_in_development:
  "NODE_ENV dev_env = Some (lit ''development'') \<and>
   handleApiError dev_env (ThrowOther (JObj [(lit ''message'', JStr (lit ''boom''))]))
     = Inr (json_response
         (Json (error_envelope (lit ''SERVER_ERROR'') (lit ''Internal server error'') None)) 500) \<and>
   lit ''Internal server error'' \<noteq> lit ''boom'' \<and>
   handleApiError dev_env
       (ThrowApp \<lparr>message = lit ''boom'', errtype = SERVER, statusCode = 1000, isOperational = True,
                  details = JUndefined\<rparr>)
     = Inl (RangeError (lit ''init['' @ [0x22] @ lit ''status'' @ [0x22]
                          @ lit ''] must be in the range of 200 to 599, inclusive.''))"
  by (simp add: handleApiError_other handleApiError_app NextResponse_json_def dev_env_def lit_def)

text \<open>
  C3, amended. An \<open>AppError\<close> whose status code \<open>NextResponse.json\<close> accepts (200 to
  599, and not 204, 205 or 304) is answered with that status code and the body
  \<open>{success: false, error: {type, message, details?}}\<close> of its type and its message,
  with its details when the environment is not production and the details are truthy.
  Any other \<open>Error\<close> is answered with 500 and \<open>SERVER_ERROR\<close>, with the generic message
  in production and its own message otherwise, in development for one. A thrown value
  that is no \<open>Error\<close> is answered with 500, \<open>SERVER_ERROR\<close> and the generic message in
  every environment. Every response of the boundary has a body of that form, and the
  body has a \<open>details\<close> field only outside production and only for truthy details of an
  \<open>AppError\<close>. \<open>withErrorHandling\<close> returns what the handler returns and answers what
  it throws with \<open>handleApiError\<close>.
\<close>

theorem handleApiError_policy:
  "(200 \<le> statusCode a \<and> statusCode a \<le> 599 \<and> \<not> null_body_status (statusCode a) \<longrightarrow>
      handleApiError e (ThrowApp a) =
        Inr (json_response
          (Json (error_envelope (ErrorType_value (errtype a)) (message a)
             (if \<not> production e \<and> truthy (details a) then Some (details a) else None)))
          (statusCode a))) \<and>
   handleApiError e (ThrowError y) =
     Inr (json_response
       (Json (error_envelope (ErrorType_value SERVER)
          (if production e then lit ''Internal server error'' else emessage y) None))
       500) \<and>
   (NODE_ENV e = Some (lit ''development'') \<longrightarrow>
      handleApiError e (ThrowError y) =
        Inr (json_response (Json (error_envelope (ErrorType_value SERVER) (emessage y) None)) 500)) \<and>
   handleApiError e (ThrowOther v) =
     Inr (json_response
       (Json (error_envelope (ErrorType_value SERVER) (lit ''Internal server error'') None)) 500) \<and>
   (handleApiError e x = Inr r \<longrightarrow> (\<exists>t m d. r = json_response (Json (error_envelope t m d)) (status r))) \<and>
   (handleApiError e x = Inr r \<and> body r = Json (error_envelope t m (Some d)) \<longrightarrow>
      \<not> production e \<and> truthy d \<and> (\<exists>a. x = ThrowApp a \<and> details a = d)) \<and>
   (handler s = (Inl x, s') \<longrightarrow> withErrorHandling e handler s = (handleApiError e x, s')) \<and>
   (handler s = (Inr r, s') \<longrightarrow> withErrorHandling e handler s = (Inr r, s'))"
proof -
  have dev: "\<not> production e" if "NODE_ENV e = Some (lit ''development'')"
    using that by (simp add: production_def lit_def)
  have app: "handleApiError e (ThrowApp a) =
        Inr (json_response
          (Json (error_envelope (ErrorType_value (errtype a)) (message a)
             (if \<not> production e \<and> truthy (details a) then Some (details a) else None)))
          (statusCode a))"
    if "200 \<le> statusCode a \<and> statusCode a \<le> 599 \<and> \<not> null_body_status (statusCode a)"
    using that by (simp add: handleApiError_app NextResponse_json_accepts)
  show ?thesis
    using handleApiError_envelope [of e x r] handleApiError_details [of e x r t m d] dev app
    by (simp add: handleApiError_error handleApiError_other withErrorHandling_def)
qed

theorem handleApiError_policy_witness:
  "NODE_ENV dev_env = Some (lit ''development'') \<and>
   handleApiError dev_env (ThrowError \<lparr>ename = lit ''Error'', emessage = lit ''boom'', eprops = []\<rparr>) =
     Inr (json_response (Json (error_envelope (ErrorType_value SERVER) (lit ''boom'') None)) 500) \<and>
   handleApiError dev_env
       (ThrowApp (createError_validation (lit ''Validation failed'') (JArr [JStr (lit ''Name is required'')])))
     = Inr (json_response
         (Json (error_envelope (lit ''VALIDATION_ERROR'') (lit ''Validation failed'')
            (Some (JArr [JStr (lit ''Name is required'')])))) 400) \<and>
   \<not> production dev_env \<and>
   withErrorHandling dev_env (\<lambda>s. (Inl (ThrowOther (JStr (lit ''x''))), Suc s)) (0::nat) =
     (handleApiError dev_env (ThrowOther (JStr (lit ''x''))), Suc 0) \<and>
   withErrorHandling dev_env (\<lambda>s. (Inr (json_response (Json (JArr [])) 200), s)) (0::nat) =
     (Inr (json_response (Json (JArr [])) 200), 0)"
proof -
  let ?y = "\<lparr>ename = lit ''Error'', emessage = lit ''boom'', eprops = []\<rparr>"
  let ?a = "createError_validation (lit ''Validation failed'') (JArr [JStr (lit ''Name is required'')])"
  let ?r = "json_response
         (Json (error_envelope (lit ''VALIDATION_ERROR'') (lit ''Validation failed'')
            (Some (JArr [JStr (lit ''Name is required'')])))) 400"
  have d: "NODE_ENV dev_env = Some (lit ''development'')" by (simp add: dev_env_def)
  have st: "200 \<le> statusCode ?a \<and> statusCode ?a \<le> 599 \<and> \<not> null_body_status (statusCode ?a)"
    by (simp add: createError_validation_def null_body_status_def)
  have np: "\<not> production dev_env" by (simp add: production_def dev_env_def lit_def)
  note t1 = handleApiError_policy
         [where e = dev_env and a = ?a and x = "ThrowApp ?a" and y = ?y and r = ?r
            and t = "lit ''VALIDATION_ERROR''" and m = "lit ''Validation failed''"
            and d = "JArr [JStr (lit ''Name is required'')]"]
  note t2 = handleApiError_policy
         [where e = dev_env and x = "ThrowOther (JStr (lit ''x''))"
            and handler = "\<lambda>s. (Inl (ThrowOther (JStr (lit ''x''))), Suc s)" and s = "0::nat" and s' = "Suc 0"]
  note t3 = handleApiError_policy
         [where e = dev_env
            and handler = "\<lambda>s::nat. (Inr (json_response (Json (JArr [])) 200), s)" and s = "0::nat"
            and s' = 0 and r = "json_response (Json (JArr [])) 200"]
  have c1: "handleApiError dev_env (ThrowError ?y) =
     Inr (json_response (Json (error_envelope (ErrorType_value SERVER) (lit ''boom'') None)) 500)"
    using mp [OF t1 [THEN conjunct2, THEN conjunct2, THEN conjunct1] d] by simp
  have "handleApiError dev_env (ThrowApp ?a) =
        Inr (json_response
          (Json (error_envelope (ErrorType_value (errtype ?a)) (message ?a)
             (if \<not> production dev_env \<and> truthy (details ?a) then Some (details ?a) else None)))
          (statusCode ?a))"
    by (rule mp [OF t1 [THEN conjunct1] st])
  then have b: "handleApiError dev_env (ThrowApp ?a) = Inr ?r"
    using np by (simp add: createError_validation_def)
  have b2: "body ?r = Json (error_envelope (lit ''VALIDATION_ERROR'') (lit ''Validation failed'')
            (Some (JArr [JStr (lit ''Name is required'')])))"
    by (simp add: json_response_def)
  have c2: "\<not> production dev_env"
    by (rule mp [OF t1 [THEN conjunct2, THEN conjunct2, THEN conjunct2, THEN conjunct2, THEN conjunct2,
          THEN conjunct1] conjI [OF b b2], THEN conjunct1])
  have c3: "withErrorHandling dev_env (\<lambda>s. (Inl (ThrowOther (JStr (lit ''x''))), Suc s)) (0::nat) =
     (handleApiError dev_env (ThrowOther (JStr (lit ''x''))), Suc 0)"
    by (rule mp [OF t2 [THEN conjunct2, THEN conjunct2, THEN conjunct2, THEN conjunct2, THEN conjunct2,
          THEN conjunct2, THEN conjunct1] refl])
  have c4: "withErrorHandling dev_env (\<lambda>s. (Inr (json_response (Json (JArr [])) 200), s)) (0::nat) =
     (Inr (json_response (Json (JArr [])) 200), 0)"
    by (rule mp [OF t3 [THEN conjunct2, THEN conjunct2, THEN conjunct2, THEN conjunct2, THEN conjunct2,
          THEN conjunct2, THEN conjunct2] refl])
  show ?thesis using d c1 b c2 c3 c4 by (intro conjI) assumption+
qed

section \<open>The rate limiter: lemmas\<close>

lemma middleware_first:
  assumes "limited a r" and "store a = None \<or> (\<exists>d. store a = Some d \<and> resetTime d < t)"
  shows "status (fst (middleware e store r t)) = 200"
    and "body (fst (middleware e store r t)) = Forwarded"
    and "snd (middleware e store r t) a = Some \<lparr>count = 1, resetTime = t + RATE_LIMIT_WINDOW\<rparr>"
  using assms
  by (auto simp: middleware_def limited_def Let_def MAX_REQUESTS_PER_WINDOW_def)

lemma middleware_within:
  assumes "limited a r" and "store a = Some \<lparr>count = n, resetTime = R\<rparr>" and "t \<le> R"
  shows "snd (middleware e store r t) a = Some \<lparr>count = Suc n, resetTime = R\<rparr>"
    and "n < 100 \<Longrightarrow> status (fst (middleware e store r t)) = 200"
    and "n < 100 \<Longrightarrow> body (fst (middleware e store r t)) = Forwarded"
    and "100 \<le> n \<Longrightarrow> fst (middleware e store r t) = too_many_requests R"
  using assms
  by (auto simp: middleware_def limited_def Let_def MAX_REQUESTS_PER_WINDOW_def)

lemma middleware_other:
  assumes "\<not> limited a r"
  shows "snd (middleware e store r t) a = store a"
  using assms
  by (auto simp: middleware_def limited_def Let_def)

lemma cleanup_within:
  assumes "store a = Some d" and "t \<le> resetTime d"
  shows "cleanup store t a = Some d"
  using assms by (simp add: cleanup_def)

lemma responses_to_Cons:
  "responses_to a ((r, t, resp) # out) = (if limited a r then resp # responses_to a out else responses_to a out)"
  by (simp add: responses_to_def)

lemma run_Request:
  "run e store (Request r t # evs) =
     ((r, t, fst (middleware e store r t)) # fst (run e (snd (middleware e store r t)) evs),
      snd (run e (snd (middleware e store r t)) evs))"
  by (simp add: split_beta)

lemma run_window:
  assumes "store a = Some \<lparr>count = n, resetTime = R\<rparr>"
    and "\<forall>ev \<in> set evs. event_time ev \<le> R"
  shows "snd (run e store evs) a
         = Some \<lparr>count = n + length (filter (is_limited_request a) evs), resetTime = R\<rparr>
       \<and> length (responses_to a (fst (run e store evs))) = length (filter (is_limited_request a) evs)
       \<and> (\<forall>k < length (filter (is_limited_request a) evs).
            (n + k < 100 \<longrightarrow> status (responses_to a (fst (run e store evs)) ! k) = 200
                             \<and> body (responses_to a (fst (run e store evs)) ! k) = Forwarded) \<and>
            (100 \<le> n + k \<longrightarrow> responses_to a (fst (run e store evs)) ! k = too_many_requests R))"
  using assms
proof (induction evs arbitrary: store n)
  case Nil
  then show ?case by (simp add: responses_to_def)
next
  case (Cons ev evs)
  show ?case
  proof (cases ev)
    case (Sweep t)
    with Cons.prems have "cleanup store t a = Some \<lparr>count = n, resetTime = R\<rparr>"
      by (simp add: cleanup_within)
    from Cons.IH [of "cleanup store t" n, OF this] Cons.prems(2) Sweep show ?thesis by simp
  next
    case (Request r t)
    let ?m = "middleware e store r t"
    from Cons.prems Request have t: "t \<le> R" by simp
    from Cons.prems have rest: "\<forall>ev \<in> set evs. event_time ev \<le> R" by simp
    show ?thesis
    proof (cases "limited a r")
      case False
      then have "snd ?m a = Some \<lparr>count = n, resetTime = R\<rparr>"
        using Cons.prems(1) by (simp add: middleware_other)
      note ih = Cons.IH [of "snd ?m" n, OF this rest]
      have f: "filter (is_limited_request a) (ev # evs) = filter (is_limited_request a) evs"
        using False Request by simp
      have rs: "responses_to a (fst (run e store (ev # evs))) = responses_to a (fst (run e (snd ?m) evs))"
        using False Request by (simp only: run_Request fst_conv responses_to_Cons if_False)
      have s: "snd (run e store (ev # evs)) = snd (run e (snd ?m) evs)"
        using Request by (simp only: run_Request snd_conv)
      show ?thesis unfolding f rs s by (rule ih)
    next
      case True
      note w = middleware_within [where store = store and e = e, OF True Cons.prems(1) t]
      from Cons.IH [of "snd ?m" "Suc n", OF w(1) rest]
      have st: "snd (run e (snd ?m) evs) a
             = Some \<lparr>count = Suc n + length (filter (is_limited_request a) evs), resetTime = R\<rparr>"
        and len: "length (responses_to a (fst (run e (snd ?m) evs))) = length (filter (is_limited_request a) evs)"
        and ih: "\<And>k. k < length (filter (is_limited_request a) evs) \<Longrightarrow>
            (Suc n + k < 100 \<longrightarrow> status (responses_to a (fst (run e (snd ?m) evs)) ! k) = 200
                             \<and> body (responses_to a (fst (run e (snd ?m) evs)) ! k) = Forwarded) \<and>
            (100 \<le> Suc n + k \<longrightarrow> responses_to a (fst (run e (snd ?m) evs)) ! k = too_many_requests R)"
        by blast+
      have f: "filter (is_limited_request a) (ev # evs) = ev # filter (is_limited_request a) evs"
        using True Request by simp
      have rs: "responses_to a (fst (run e store (ev # evs)))
          = fst ?m # responses_to a (fst (run e (snd ?m) evs))"
        using True Request by (simp only: run_Request fst_conv responses_to_Cons if_True)
      have s: "snd (run e store (ev # evs)) = snd (run e (snd ?m) evs)"
        using Request by (simp only: run_Request snd_conv)
      have all: "(n + k < 100 \<longrightarrow> status (responses_to a (fst (run e store (ev # evs))) ! k) = 200
                             \<and> body (responses_to a (fst (run e store (ev # evs))) ! k) = Forwarded) \<and>
            (100 \<le> n + k \<longrightarrow> responses_to a (fst (run e store (ev # evs))) ! k = too_many_requests R)"
        if "k < length (filter (is_limited_request a) (ev # evs))" for k
      proof (cases k)
        case 0
        with w show ?thesis by (simp add: rs)
      next
        case (Suc j)
        with that have "j < length (filter (is_limited_request a) evs)" by (simp only: f length_Cons Suc_less_eq)
        from ih [OF this] Suc show ?thesis by (simp add: rs)
      qed
      have c1: "snd (run e store (ev # evs)) a
         = Some \<lparr>count = n + length (filter (is_limited_request a) (ev # evs)), resetTime = R\<rparr>"
        unfolding s f using st by simp
      have c2: "length (responses_to a (fst (run e store (ev # evs))))
         = length (filter (is_limited_request a) (ev # evs))"
        unfolding rs f using len by simp
      from c1 c2 all show ?thesis by blast
    qed
  qed
qed

lemma run_first_window:
  assumes "store a = None \<or> (\<exists>d. store a = Some d \<and> resetTime d < t)"
    and "limited a r"
    and "\<forall>ev \<in> set evs. event_time ev \<le> t + RATE_LIMIT_WINDOW"
  shows "snd (run e store (Request r t # evs)) a
         = Some \<lparr>count = Suc (length (filter (is_limited_request a) evs)), resetTime = t + RATE_LIMIT_WINDOW\<rparr>"
    and "length (responses_to a (fst (run e store (Request r t # evs))))
         = Suc (length (filter (is_limited_request a) evs))"
    and "k \<le> length (filter (is_limited_request a) evs) \<Longrightarrow> k < 100 \<Longrightarrow>
           status (responses_to a (fst (run e store (Request r t # evs))) ! k) = 200
         \<and> body (responses_to a (fst (run e store (Request r t # evs))) ! k) = Forwarded"
    and "k \<le> length (filter (is_limited_request a) evs) \<Longrightarrow> 100 \<le> k \<Longrightarrow>
           responses_to a (fst (run e store (Request r t # evs))) ! k = too_many_requests (t + RATE_LIMIT_WINDOW)"
proof -
  let ?m = "middleware e store r t"
  let ?R = "t + RATE_LIMIT_WINDOW"
  note first = middleware_first [where store = store and e = e, OF assms(2) assms(1)]
  note w = run_window [where store = "snd ?m" and e = e and n = 1, OF first(3) assms(3)]
  have rs: "responses_to a (fst (run e store (Request r t # evs)))
      = fst ?m # responses_to a (fst (run e (snd ?m) evs))"
    using assms(2) by (simp only: run_Request fst_conv responses_to_Cons if_True)
  have s: "snd (run e store (Request r t # evs)) = snd (run e (snd ?m) evs)"
    by (simp only: run_Request snd_conv)
  from w show "snd (run e store (Request r t # evs)) a
         = Some \<lparr>count = Suc (length (filter (is_limited_request a) evs)), resetTime = ?R\<rparr>"
    unfolding s by simp
  from w show "length (responses_to a (fst (run e store (Request r t # evs))))
         = Suc (length (filter (is_limited_request a) evs))"
    unfolding rs by simp
  from w have rest: "j < length (filter (is_limited_request a) evs) \<Longrightarrow>
       (1 + j < 100 \<longrightarrow> status (responses_to a (fst (run e (snd ?m) evs)) ! j) = 200
                             \<and> body (responses_to a (fst (run e (snd ?m) evs)) ! j) = Forwarded) \<and>
       (100 \<le> 1 + j \<longrightarrow> responses_to a (fst (run e (snd ?m) evs)) ! j = too_many_requests ?R)" for j
    by blast
  show "status (responses_to a (fst (run e store (Request r t # evs))) ! k) = 200
         \<and> body (responses_to a (fst (run e store (Request r t # evs))) ! k) = Forwarded"
    if "k \<le> length (filter (is_limited_request a) evs)" and "k < 100"
  proof (cases k)
    case 0
    with first show ?thesis unfolding rs by simp
  next
    case (Suc j)
    with that have "j < length (filter (is_limited_request a) evs)" by simp
    from rest [OF this] Suc that(2) show ?thesis unfolding rs by simp
  qed
  show "responses_to a (fst (run e store (Request r t # evs))) ! k = too_many_requests ?R"
    if "k \<le> length (filter (is_limited_request a) evs)" and "100 \<le> k"
  proof (cases k)
    case 0
    with that show ?thesis by simp
  next
    case (Suc j)
    with that have "j < length (filter (is_limited_request a) evs)" by simp
    from rest [OF this] Suc that(2) show ?thesis unfolding rs by simp
  qed
qed

lemma after_window:
  assumes "s a = Some d" and "resetTime d < t'" and "s' = s \<or> s' = cleanup s t''"
  shows "s' a = None \<or> (\<exists>d. s' a = Some d \<and> resetTime d < t')"
proof (cases "s' = s")
  case True
  with assms show ?thesis by simp
next
  case False
  with assms have "s' a = (if resetTime d < t'' then None else Some d)" by (simp add: cleanup_def)
  with assms(2) show ?thesis by (cases "resetTime d < t''") simp_all
qed

lemma too_many_requests_shape:
  "status (too_many_requests R) = 429 \<and>
   map_of (headers (too_many_requests R)) (lit ''Retry-After'') = Some (lit ''60'') \<and>
   body (too_many_requests R) = Json (JObj
        [(lit ''success'', JBool False),
         (lit ''error'', JObj
            [(lit ''message'', JStr (lit ''Too many requests, please try again later.'')),
             (lit ''type'', JStr (lit ''RATE_LIMIT_EXCEEDED''))])]) \<and>
   body (too_many_requests R) \<noteq> Forwarded"
  by (simp add: too_many_requests_def lit_def)

section \<open>The rate limiter: the claim\<close>

text \<open>
  C4: a client \<open>a\<close> has no entry, or one whose window has passed, and sends a request on
  a path under \<open>/api/\<close> at time \<open>t\<close>. Whatever happens until \<open>t\<close> plus 60 seconds (more
  requests of this client, requests of others, runs of the cleanup), the responses to the
  requests of \<open>a\<close> on such paths are: the first hundred are forwarded; each later one is
  the 429 response, which has the header \<open>Retry-After: 60\<close> and the JSON error body, and
  is not forwarded. After that time the next such request of \<open>a\<close> is forwarded, whether
  or not the cleanup has run, and the entry is a new one with the count 1.
\<close>

theorem rate_limit_window:
  assumes "store a = None \<or> (\<exists>d. store a = Some d \<and> resetTime d < t)"
    and "limited a r"
    and "\<forall>ev \<in> set evs. event_time ev \<le> t + RATE_LIMIT_WINDOW"
  shows "length (responses_to a (fst (run e store (Request r t # evs))))
           = Suc (length (filter (is_limited_request a) evs)) \<and>
         (\<forall>k \<le> length (filter (is_limited_request a) evs).
            (k < 100 \<longrightarrow>
               status (responses_to a (fst (run e store (Request r t # evs))) ! k) = 200 \<and>
               body (responses_to a (fst (run e store (Request r t # evs))) ! k) = Forwarded) \<and>
            (100 \<le> k \<longrightarrow>
               responses_to a (fst (run e store (Request r t # evs))) ! k
                 = too_many_requests (t + RATE_LIMIT_WINDOW))) \<and>
         status (too_many_requests (t + RATE_LIMIT_WINDOW)) = 429 \<and>
         map_of (headers (too_many_requests (t + RATE_LIMIT_WINDOW))) (lit ''Retry-After'') = Some (lit ''60'') \<and>
         body (too_many_requests (t + RATE_LIMIT_WINDOW)) = Json (JObj
            [(lit ''success'', JBool False),
             (lit ''error'', JObj
                [(lit ''message'', JStr (lit ''Too many requests, please try again later.'')),
                 (lit ''type'', JStr (lit ''RATE_LIMIT_EXCEEDED''))])]) \<and>
         body (too_many_requests (t + RATE_LIMIT_WINDOW)) \<noteq> Forwarded \<and>
         (\<forall>store' \<in> {snd (run e store (Request r t # evs)), cleanup (snd (run e store (Request r t # evs))) t''}.
            t + RATE_LIMIT_WINDOW < t' \<and> limited a r' \<longrightarrow>
              status (fst (middleware e store' r' t')) = 200 \<and>
              body (fst (middleware e store' r' t')) = Forwarded \<and>
              snd (middleware e store' r' t') a = Some \<lparr>count = 1, resetTime = t' + RATE_LIMIT_WINDOW\<rparr>)"
proof -
  note w = run_first_window [where e = e and store = store and a = a and r = r and t = t and evs = evs, OF assms]
  let ?s = "snd (run e store (Request r t # evs))"
  have after: "status (fst (middleware e s' r' t')) = 200 \<and>
              body (fst (middleware e s' r' t')) = Forwarded \<and>
              snd (middleware e s' r' t') a = Some \<lparr>count = 1, resetTime = t' + RATE_LIMIT_WINDOW\<rparr>"
    if "s' = ?s \<or> s' = cleanup ?s t''" and "t + RATE_LIMIT_WINDOW < t'" and "limited a r'" for s'
  proof -
    have "resetTime \<lparr>count = Suc (length (filter (is_limited_request a) evs)),
                       resetTime = t + RATE_LIMIT_WINDOW\<rparr> < t'"
      using that(2) by simp
    from after_window [OF w(1) this that(1)]
    have "s' a = None \<or> (\<exists>d. s' a = Some d \<and> resetTime d < t')" .
    from middleware_first [where store = s' and e = e, OF that(3) this] show ?thesis by blast
  qed
  have win: "\<forall>k \<le> length (filter (is_limited_request a) evs).
            (k < 100 \<longrightarrow>
               status (responses_to a (fst (run e store (Request r t # evs))) ! k) = 200 \<and>
               body (responses_to a (fst (run e store (Request r t # evs))) ! k) = Forwarded) \<and>
            (100 \<le> k \<longrightarrow>
               responses_to a (fst (run e store (Request r t # evs))) ! k
                 = too_many_requests (t + RATE_LIMIT_WINDOW))"
    using w(3) w(4) by blast
  have aft: "\<forall>store' \<in> {?s, cleanup ?s t''}.
            t + RATE_LIMIT_WINDOW < t' \<and> limited a r' \<longrightarrow>
              status (fst (middleware e store' r' t')) = 200 \<and>
              body (fst (middleware e store' r' t')) = Forwarded \<and>
              snd (middleware e store' r' t') a = Some \<lparr>count = 1, resetTime = t' + RATE_LIMIT_WINDOW\<rparr>"
    using after by blast
  from w(2) win aft too_many_requests_shape [of "t + RATE_LIMIT_WINDOW"]
  show ?thesis by (intro conjI) blast+
qed


theorem rate_limit_window_witness:
  "limited sample_client sample_request \<and>
   length (responses_to sample_client
      (fst (run prod_env Map.empty (Request sample_request 1000 # replicate 100 (Request sample_request 2000)))))
     = 101 \<and>
   body (responses_to sample_client
      (fst (run prod_env Map.empty (Request sample_request 1000 # replicate 100 (Request sample_request 2000)))) ! 99)
     = Forwarded \<and>
   responses_to sample_client
      (fst (run prod_env Map.empty (Request sample_request 1000 # replicate 100 (Request sample_request 2000)))) ! 100
     = too_many_requests 61000 \<and>
   status (too_many_requests 61000) = 429 \<and>
   body (fst (middleware prod_env
      (snd (run prod_env Map.empty (Request sample_request 1000 # replicate 100 (Request sample_request 2000))))
      sample_request 61001)) = Forwarded"
proof -
  let ?evs = "replicate 100 (Request sample_request 2000)"
  let ?run = "run prod_env Map.empty (Request sample_request 1000 # ?evs)"
  have l: "limited sample_client sample_request"
    by (simp add: limited_def client_def sample_client_def sample_request_def startsWith_def lit_def)
  have n: "(Map.empty :: rate_store) sample_client = None \<or>
      (\<exists>d. (Map.empty :: rate_store) sample_client = Some d \<and> resetTime d < 1000)"
    by simp
  have w: "\<forall>ev \<in> set ?evs. event_time ev \<le> 1000 + RATE_LIMIT_WINDOW"
    by (simp add: RATE_LIMIT_WINDOW_def)
  have f: "length (filter (is_limited_request sample_client) ?evs) = 100"
    using l by (simp add: filter_replicate)
  have W: "1000 + RATE_LIMIT_WINDOW = 61000" by (simp add: RATE_LIMIT_WINDOW_def)
  note T = rate_limit_window [where e = prod_env and store = Map.empty and a = sample_client
      and r = sample_request and t = 1000 and evs = ?evs and t' = 61001 and r' = sample_request, OF n l w,
      unfolded f W]
  from T have c1: "length (responses_to sample_client (fst ?run)) = 101" by simp
  from T have k: "\<forall>k \<le> 100.
            (k < 100 \<longrightarrow>
               status (responses_to sample_client (fst ?run) ! k) = 200 \<and>
               body (responses_to sample_client (fst ?run) ! k) = Forwarded) \<and>
            (100 \<le> k \<longrightarrow> responses_to sample_client (fst ?run) ! k = too_many_requests 61000)"
    by (rule conjunct2 [THEN conjunct1])
  from k [THEN spec, of 99] have c2: "body (responses_to sample_client (fst ?run) ! 99) = Forwarded" by simp
  from k [THEN spec, of 100]
  have c3: "responses_to sample_client (fst ?run) ! 100 = too_many_requests 61000" by simp
  from T have c4: "status (too_many_requests 61000) = 429" by blast
  from T l have c5: "body (fst (middleware prod_env (snd ?run) sample_request 61001)) = Forwarded" by simp
  from l c1 c2 c3 c4 c5 show ?thesis by (intro conjI)
qed

section \<open>The routes: lemmas\<close>

subsection \<open>Errors and the connection\<close>

lemma handle_validation:
  "handleApiError e (ThrowApp (createError_validation m JUndefined)) =
     Inr (json_response (Json (error_envelope (lit ''VALIDATION_ERROR'') m None)) 400)"
  by (simp add: handleApiError_app createError_validation_def)

lemma handle_notFound:
  "handleApiError e (ThrowApp (createError_notFound m)) =
     Inr (json_response (Json (error_envelope (lit ''NOT_FOUND_ERROR'') m None)) 404)"
  by (simp add: handleApiError_app createError_notFound_def)

lemma dbConnect_cases:
  obtains (cached) "conn w" "dbConnect x w = (Inr (), w)"
  | (opened) "\<not> conn w" "connect_error x = None" "dbConnect x w = (Inr (), sent Connect (w\<lparr>conn := True\<rparr>))"
  | (failed) err where "\<not> conn w" "connect_error x = Some err" "dbConnect x w = (Inl (ThrowError err), sent Connect w)"
  by (cases "conn w"; cases "connect_error x") (auto simp: dbConnect_def)

lemma dbConnect_ok:
  assumes "dbConnect x w = (Inr u, w1)"
  shows "groups w1 = groups w" and "transactions w1 = transactions w" and "budgets w1 = budgets w"
    and "generated w1 = generated w"
    and "trace w1 = trace w \<or> trace w1 = trace w @ [Connect]"
  using assms by (auto simp: dbConnect_def sent_def split: if_splits option.splits)

lemma dbConnect_fail:
  assumes "dbConnect x w = (Inl t, w1)"
  shows "groups w1 = groups w" and "transactions w1 = transactions w" and "budgets w1 = budgets w"
    and "trace w1 = trace w @ [Connect]" and "\<not> conn w" and "connect_error x \<noteq> None"
    and "\<exists>err. t = ThrowError err"
  using assms by (auto simp: dbConnect_def sent_def split: if_splits option.splits)

lemma dbConnect_connected:
  assumes "conn w \<or> connect_error x = None"
  shows "\<exists>w1. dbConnect x w = (Inr (), w1)"
  using assms by (auto simp: dbConnect_def split: option.splits)

subsection \<open>POST\<close>

lemma POST_handler_not_connected:
  assumes "dbConnect x w = (Inl t, w1)"
  shows "POST_handler x json w = (Inl t, w1)"
  using assms by (simp add: POST_handler_def)

lemma no_profiles_read:
  assumes "\<not> (\<exists>ps. own_prop reqBody (lit ''profiles'') = Some (JArr ps) \<and> ps \<noteq> [])"
  shows "\<not> isArray (read reqBody ''profiles'') \<or> length (the_items (read reqBody ''profiles'')) = 0"
proof (cases "own_prop reqBody (lit ''profiles'')")
  case None
  then show ?thesis by (simp add: read_def)
next
  case (Some v)
  with assms show ?thesis by (cases v) (simp_all add: read_def)
qed

lemma get_prop_defined:
  assumes "v \<noteq> JNull" and "v \<noteq> JUndefined"
  shows "get_prop v k = Inr (read v k)"
  using assms by (simp add: get_prop_def)

lemma get_prop_Inr: "get_prop v k = Inr c \<Longrightarrow> c = read v k \<and> v \<noteq> JNull \<and> v \<noteq> JUndefined"
  by (auto simp: get_prop_def split: if_splits)

lemma get_prop_Inl: "get_prop v k = Inl t \<Longrightarrow> (v = JNull \<or> v = JUndefined) \<and> (\<exists>err. t = ThrowError err)"
  by (auto simp: get_prop_def TypeError_def split: if_splits)

lemma POST_handler_rejects:
  assumes c: "dbConnect x w = (Inr u, w1)"
    and np: "\<not> (\<exists>ps. own_prop reqBody (lit ''profiles'') = Some (JArr ps) \<and> ps \<noteq> [])"
  shows "\<exists>t. POST_handler x (Inr reqBody) w = (Inl t, w1) \<and>
           (reqBody \<noteq> JNull \<and> reqBody \<noteq> JUndefined \<longrightarrow>
              (\<exists>m. t = ThrowApp (createError_validation m JUndefined)))"
proof (cases "reqBody = JNull \<or> reqBody = JUndefined")
  case True
  then show ?thesis using c by (auto simp: POST_handler_def get_prop_def)
next
  case False
  then have g: "get_prop reqBody k = Inr (read reqBody k)" for k
    by (simp add: get_prop_defined)
  from no_profiles_read [OF np] show ?thesis
    using c False by (auto simp add: POST_handler_def g)
qed

subsection \<open>PUT with a malformed id\<close>

lemma PUT_handler_not_connected:
  assumes "dbConnect x w = (Inl t, w1)"
  shows "PUT_handler x gid json w = (Inl t, w1)"
  using assms by (simp add: PUT_handler_def)

lemma PUT_handler_malformed:
  assumes "dbConnect x w = (Inr u, w1)" and "\<not> oid_valid x gid"
  shows "PUT_handler x gid (Inr reqBody) w
           = (Inl (ThrowApp (createError_validation (lit ''Invalid group ID format'') JUndefined)), w1)"
    and "PUT_handler x gid (Inl t) w = (Inl t, w1)"
  using assms by (simp_all add: PUT_handler_def)

lemma PUT_malformed_id_when_connected:
  assumes "\<not> oid_valid x gid"
  shows "trace (snd (PUT x e gid json w)) = trace w \<or> trace (snd (PUT x e gid json w)) = trace w @ [Connect]"
    and "groups (snd (PUT x e gid json w)) = groups w"
    and "conn w \<or> connect_error x = None \<Longrightarrow>
           fst (PUT x e gid (Inr reqBody) w)
             = Inr (json_response
                 (Json (error_envelope (lit ''VALIDATION_ERROR'') (lit ''Invalid group ID format'') None)) 400)"
proof -
  obtain res w1 where d: "dbConnect x w = (res, w1)" by (cases "dbConnect x w")
  have s: "snd (PUT x e gid json w) = w1"
  proof (cases res)
    case (Inl t)
    with d PUT_handler_not_connected [of x w t w1 gid json] show ?thesis
      by (simp add: PUT_def withErrorHandling_def)
  next
    case (Inr u)
    with d PUT_handler_malformed [of x w u w1 gid] assms show ?thesis
      by (cases json) (simp_all add: PUT_def withErrorHandling_def)
  qed
  show "trace (snd (PUT x e gid json w)) = trace w \<or> trace (snd (PUT x e gid json w)) = trace w @ [Connect]"
    unfolding s using d dbConnect_ok(5) [of x w _ w1] dbConnect_fail(4) [of x w _ w1] by (cases res) auto
  show "groups (snd (PUT x e gid json w)) = groups w"
    unfolding s using d dbConnect_ok(1) [of x w _ w1] dbConnect_fail(1) [of x w _ w1] by (cases res) auto
  show "fst (PUT x e gid (Inr reqBody) w)
             = Inr (json_response
                 (Json (error_envelope (lit ''VALIDATION_ERROR'') (lit ''Invalid group ID format'') None)) 400)"
    if "conn w \<or> connect_error x = None"
  proof -
    from dbConnect_connected [OF that] obtain w2 where "dbConnect x w = (Inr (), w2)" by blast
    from PUT_handler_malformed(1) [OF this assms] show ?thesis
      by (simp add: PUT_def withErrorHandling_def handle_validation)
  qed
qed

subsection \<open>What POST stores\<close>

lemma read_array:
  assumes "isArray (read v k)"
  shows "own_prop v (lit k) = Some (JArr (the_items (read v k)))"
proof (cases "own_prop v (lit k)")
  case None
  with assms show ?thesis by (simp add: read_def)
next
  case (Some c)
  with assms show ?thesis by (cases c) (simp_all add: read_def)
qed

lemma length_new_UserGroup: "length (g_profiles (new_UserGroup x n name type ps)) = length ps"
  by (simp add: new_UserGroup_def)

lemma POST_handler_Inr:
  assumes "POST_handler x json w = (Inr r, w')"
  shows "\<exists>reqBody ps g. json = Inr reqBody \<and> own_prop reqBody (lit ''profiles'') = Some (JArr ps) \<and> ps \<noteq> [] \<and>
           r = json_response (Doc g) 201 \<and> length (g_profiles g) = length ps \<and>
           groups w' = groups w @ [g]"
proof -
  obtain res w1 where d: "dbConnect x w = (res, w1)" by (cases "dbConnect x w")
  from assms d obtain u where u: "res = Inr u"
    by (cases res) (simp_all add: POST_handler_def)
  from assms d u obtain reqBody where j: "json = Inr reqBody"
    by (cases json) (simp_all add: POST_handler_def)
  from assms d u j have nn: "reqBody \<noteq> JNull \<and> reqBody \<noteq> JUndefined"
    by (auto simp: POST_handler_def get_prop_def split: if_splits)
  then have g: "get_prop reqBody k = Inr (read reqBody k)" for k
    by (simp add: get_prop_defined)
  let ?ps = "the_items (read reqBody ''profiles'')"
  let ?g = "new_UserGroup x (generated w1) (trim (the_str (read reqBody ''name''))) (read reqBody ''type'')
              (map profile_input ?ps)"
  from assms d u j have a: "isArray (read reqBody ''profiles'')" and n: "?ps \<noteq> []"
    and r: "r = json_response (Doc ?g) 201" and gw: "groups w' = groups w1 @ [?g]"
    by (auto simp: POST_handler_def g Let_def sent_def split: if_splits option.splits)
  from read_array [OF a] n r gw dbConnect_ok(1) [of x w u w1] d u j
  show ?thesis by (auto simp: length_new_UserGroup)
qed

subsection \<open>Documents in a collection\<close>

lemma find_group_Some:
  assumes "find_group i gs = Some g"
  shows "g \<in> set gs" and "g_id g = i"
  using assms by (auto simp: find_group_def find_Some_iff)

lemma replace_doc_same:
  assumes "find_group (g_id g) gs = Some g"
  shows "replace_doc g gs = gs"
  using assms by (induction gs) (auto simp: find_group_def)

lemma pull_absent:
  assumes "\<forall>p \<in> set ps. p_id p \<noteq> i"
  shows "pull i ps = ps"
  using assms by (simp add: pull_def filter_id_conv)

subsection \<open>What PUT stores\<close>

lemma PUT_handler_Inr:
  assumes "PUT_handler x gid json w = (Inr r, w')"
  shows "\<exists>reqBody ps doc name.
           json = Inr reqBody \<and> own_prop reqBody (lit ''profiles'') = Some (JArr ps) \<and> ps \<noteq> [] \<and>
           find_group (oid_of x gid) (groups w) = Some doc \<and>
           r = json_response (Doc (doc\<lparr>g_name := name, g_profiles := cast_profiles x ps\<rparr>)) 200 \<and>
           groups w' = replace_doc (doc\<lparr>g_name := name, g_profiles := cast_profiles x ps\<rparr>) (groups w)"
proof -
  obtain res w1 where d: "dbConnect x w = (res, w1)" by (cases "dbConnect x w")
  from assms d obtain u where u: "res = Inr u"
    by (cases res) (simp_all add: PUT_handler_def)
  from assms d u obtain reqBody where j: "json = Inr reqBody"
    by (cases json) (simp_all add: PUT_handler_def)
  from assms d u j have v: "oid_valid x gid"
    by (auto simp: PUT_handler_def split: if_splits)
  from assms d u j v obtain doc where f: "find_group (oid_of x gid) (groups w1) = Some doc"
    by (cases "find_group (oid_of x gid) (groups w1)") (simp_all add: PUT_handler_def Let_def sent_def)
  from assms d u j v f have nn: "reqBody \<noteq> JNull \<and> reqBody \<noteq> JUndefined"
    by (auto simp: PUT_handler_def Let_def sent_def get_prop_def split: if_splits)
  then have g: "get_prop reqBody k = Inr (read reqBody k)" for k
    by (simp add: get_prop_defined)
  from assms d u j v f obtain name where c: "call_trim (read reqBody ''name'') ''body.name'' = Inr name"
    by (cases "call_trim (read reqBody ''name'') ''body.name''")
       (auto simp: PUT_handler_def Let_def sent_def g split: if_splits)
  let ?ps = "the_items (read reqBody ''profiles'')"
  let ?u = "doc\<lparr>g_name := name, g_profiles := cast_profiles x ?ps\<rparr>"
  from assms d u j v f c have a: "isArray (read reqBody ''profiles'')" and n: "?ps \<noteq> []"
    and r: "r = json_response (Doc ?u) 200" and gw: "groups w' = replace_doc ?u (groups w1)"
    by (auto simp: PUT_handler_def g Let_def sent_def split: if_splits option.splits)
  from read_array [OF a] n r gw f dbConnect_ok(1) [of x w u w1] d u j
  show ?thesis by auto
qed

subsection \<open>DELETE\<close>

lemma delete_profile_last:
  assumes "oid_valid x pid" and "find_group (oid_of x gid) (groups w1) = Some doc"
    and "length (g_profiles doc) \<le> 1"
  shows "delete_profile x gid pid w1 =
           (Inl (ThrowApp (createError_validation
              (lit ''Cannot delete the last profile in a group. Delete the group instead.'') JUndefined)),
            sent (FindById (oid_of x gid)) w1)"
  using assms by (simp add: delete_profile_def Let_def sent_def)

lemma delete_profile_Inr:
  assumes "delete_profile x gid pid w1 = (Inr r, w')"
  shows "\<exists>doc. oid_valid x pid \<and> find_group (oid_of x gid) (groups w1) = Some doc \<and>
           2 \<le> length (g_profiles doc) \<and>
           save_error x (doc\<lparr>g_profiles := pull (oid_of x pid) (g_profiles doc)\<rparr>) = None \<and>
           r = json_response (Doc (doc\<lparr>g_profiles := pull (oid_of x pid) (g_profiles doc)\<rparr>)) 200 \<and>
           groups w' = replace_doc (doc\<lparr>g_profiles := pull (oid_of x pid) (g_profiles doc)\<rparr>) (groups w1) \<and>
           transactions w' = delete_by_profile (oid_of x pid) (transactions w1) \<and>
           budgets w' = delete_by_profile (oid_of x pid) (budgets w1)"
proof -
  from assms have v: "oid_valid x pid"
    by (auto simp: delete_profile_def split: if_splits)
  from assms v obtain doc where f: "find_group (oid_of x gid) (groups w1) = Some doc"
    by (cases "find_group (oid_of x gid) (groups w1)") (simp_all add: delete_profile_def Let_def sent_def)
  from assms v f show ?thesis
    by (auto simp: delete_profile_def Let_def sent_def split: if_splits option.splits)
qed

lemma delete_profile_ok:
  assumes "oid_valid x pid" and "find_group (oid_of x gid) (groups w1) = Some doc"
    and "2 \<le> length (g_profiles doc)"
    and "save_error x (doc\<lparr>g_profiles := pull (oid_of x pid) (g_profiles doc)\<rparr>) = None"
  shows "\<exists>w'. delete_profile x gid pid w1 =
           (Inr (json_response (Doc (doc\<lparr>g_profiles := pull (oid_of x pid) (g_profiles doc)\<rparr>)) 200), w') \<and>
           groups w' = replace_doc (doc\<lparr>g_profiles := pull (oid_of x pid) (g_profiles doc)\<rparr>) (groups w1) \<and>
           transactions w' = delete_by_profile (oid_of x pid) (transactions w1) \<and>
           budgets w' = delete_by_profile (oid_of x pid) (budgets w1)"
  using assms by (simp add: delete_profile_def Let_def sent_def)

lemma delete_group_Inr:
  assumes "delete_group x gid w1 = (Inr r, w')"
  shows "r = json_response
               (Json (JObj [(lit ''success'', JBool True),
                            (lit ''message'', JStr (lit ''Group deleted successfully''))])) 200 \<and>
         groups w' = remove_doc (oid_of x gid) (groups w1)"
  using assms by (auto simp: delete_group_def Let_def sent_def split: option.splits)

lemma DELETE_handler_branch:
  assumes "oid_valid x gid" and "dbConnect x w = (Inr u, w1)"
  shows "DELETE_handler x gid (Some pid) w = (if pid \<noteq> [] then delete_profile x gid pid w1 else delete_group x gid w1)"
    and "DELETE_handler x gid None w = delete_group x gid w1"
  using assms by (simp_all add: DELETE_handler_def)

lemma DELETE_handler_cases:
  obtains (malformed) "\<not> oid_valid x gid"
      "DELETE_handler x gid po w =
         (Inl (ThrowApp (createError_validation (lit ''Invalid group ID format'') JUndefined)), w)"
  | (unconnected) t w1 where "dbConnect x w = (Inl t, w1)" "DELETE_handler x gid po w = (Inl t, w1)"
  | (profile) u w1 pid where "dbConnect x w = (Inr u, w1)" "po = Some pid" "pid \<noteq> []"
      "DELETE_handler x gid po w = delete_profile x gid pid w1"
  | (whole) u w1 where "dbConnect x w = (Inr u, w1)" "DELETE_handler x gid po w = delete_group x gid w1"
proof (cases "oid_valid x gid")
  case False
  then show ?thesis using malformed by (simp add: DELETE_handler_def)
next
  case True
  obtain res w1 where d: "dbConnect x w = (res, w1)" by (cases "dbConnect x w")
  show ?thesis
  proof (cases res)
    case (Inl t)
    with d True show ?thesis using unconnected [of t w1] by (simp add: DELETE_handler_def)
  next
    case (Inr u)
    with d have c: "dbConnect x w = (Inr u, w1)" by simp
    show ?thesis
    proof (cases po)
      case None
      with c True show ?thesis using whole [of u w1] by (simp add: DELETE_handler_def)
    next
      case (Some pid)
      with c True show ?thesis using whole [of u w1] profile [of u w1 pid]
        by (cases "pid = []") (simp_all add: DELETE_handler_def)
    qed
  qed
qed

subsection \<open>The last Profile of a Group\<close>

lemma DELETE_last_profile:
  assumes "oid_valid x gid" and "oid_valid x pid" and "pid \<noteq> []"
    and "conn w \<or> connect_error x = None"
    and "find_group (oid_of x gid) (groups w) = Some doc"
    and "length (g_profiles doc) \<le> 1"
  shows "fst (DELETE x e gid (Some pid) w)
           = Inr (json_response
               (Json (error_envelope (lit ''VALIDATION_ERROR'')
                  (lit ''Cannot delete the last profile in a group. Delete the group instead.'') None)) 400)"
    and "groups (snd (DELETE x e gid (Some pid) w)) = groups w"
    and "transactions (snd (DELETE x e gid (Some pid) w)) = transactions w"
    and "budgets (snd (DELETE x e gid (Some pid) w)) = budgets w"
proof -
  from dbConnect_connected [OF assms(4)] obtain w1 where d: "dbConnect x w = (Inr (), w1)" by blast
  note same = dbConnect_ok [OF d]
  from assms(5) same(1) have f: "find_group (oid_of x gid) (groups w1) = Some doc" by simp
  have r: "DELETE x e gid (Some pid) w
      = (Inr (json_response
               (Json (error_envelope (lit ''VALIDATION_ERROR'')
                  (lit ''Cannot delete the last profile in a group. Delete the group instead.'') None)) 400),
         sent (FindById (oid_of x gid)) w1)"
    using DELETE_handler_branch(1) [OF assms(1) d, of pid] assms(3)
      delete_profile_last [OF assms(2) f assms(6)]
    by (simp add: DELETE_def withErrorHandling_def handle_validation)
  show "fst (DELETE x e gid (Some pid) w)
           = Inr (json_response
               (Json (error_envelope (lit ''VALIDATION_ERROR'')
                  (lit ''Cannot delete the last profile in a group. Delete the group instead.'') None)) 400)"
    unfolding r by simp
  show "groups (snd (DELETE x e gid (Some pid) w)) = groups w"
    unfolding r using same by (simp add: sent_def)
  show "transactions (snd (DELETE x e gid (Some pid) w)) = transactions w"
    unfolding r using same by (simp add: sent_def)
  show "budgets (snd (DELETE x e gid (Some pid) w)) = budgets w"
    unfolding r using same by (simp add: sent_def)
qed

subsection \<open>The bodies of the responses\<close>

lemma wrapped:
  "(\<exists>t. fst (h w) = Inl t \<and> fst (withErrorHandling e h w) = handleApiError e t) \<or>
   (\<exists>r. fst (h w) = Inr r \<and> fst (withErrorHandling e h w) = Inr r)"
proof (cases "h w")
  case (Pair res w')
  then show ?thesis by (cases res) (simp_all add: withErrorHandling_def)
qed

lemma wrapped_state: "snd (withErrorHandling e h w) = snd (h w)"
proof (cases "h w")
  case (Pair res w')
  then show ?thesis by (cases res) (simp_all add: withErrorHandling_def)
qed

lemma error_envelope_fields:
  "own_prop (error_envelope t m d) (lit ''success'') = Some (JBool False) \<and>
   (\<exists>fs. own_prop (error_envelope t m d) (lit ''error'') = Some (JObj fs) \<and>
      map_of fs (lit ''type'') = Some (JStr t) \<and> map_of fs (lit ''message'') = Some (JStr m) \<and>
      map_of fs (lit ''details'') = d)"
  by (cases d) (simp_all add: error_envelope_def own_prop_def lit_def)

lemma GET_exact:
  "fst (GET x e w) =
     (case fst (dbConnect x w) of
        Inl t \<Rightarrow> handleApiError e t
      | Inr u \<Rightarrow> Inr (json_response (if groups w = [] then Json (JArr []) else Docs (groups w)) 200))"
proof (cases "dbConnect x w")
  case (Pair res w1)
  show ?thesis
  proof (cases res)
    case (Inl t)
    with Pair show ?thesis by (simp add: GET_def withErrorHandling_def GET_handler_def)
  next
    case (Inr u)
    with Pair dbConnect_ok(1) [of x w u w1] show ?thesis
      by (simp add: GET_def withErrorHandling_def GET_handler_def Let_def sent_def)
  qed
qed

lemma GET_shape:
  assumes "fst (GET x e w) = Inr r"
  shows "(\<exists>ty m d. r = json_response (Json (error_envelope ty m d)) (status r)) \<or>
         r = json_response (if groups w = [] then Json (JArr []) else Docs (groups w)) 200"
proof (cases "fst (dbConnect x w)")
  case (Inl t)
  with assms have "handleApiError e t = Inr r" by (simp add: GET_exact)
  from handleApiError_envelope [OF this] show ?thesis by blast
next
  case (Inr u)
  with assms show ?thesis by (simp add: GET_exact)
qed

lemma GET_success:
  assumes "conn w \<or> connect_error x = None"
  shows "fst (GET x e w) =
           Inr (json_response (if groups w = [] then Json (JArr []) else Docs (groups w)) 200)"
proof -
  from dbConnect_connected [OF assms] obtain w1 where "dbConnect x w = (Inr (), w1)" by blast
  then show ?thesis by (simp add: GET_exact)
qed

lemma POST_shape:
  assumes "fst (POST x e json w) = Inr r"
  shows "(\<exists>ty m d. r = json_response (Json (error_envelope ty m d)) (status r)) \<or>
         (\<exists>g. r = json_response (Doc g) 201 \<and> groups (snd (POST x e json w)) = groups w @ [g])"
proof -
  from wrapped [where h = "POST_handler x json" and w = w and e = e]
  consider (threw) t where "fst (POST x e json w) = handleApiError e t"
    | (returned) r' where "fst (POST_handler x json w) = Inr r'" "fst (POST x e json w) = Inr r'"
    unfolding POST_def by blast
  then show ?thesis
  proof cases
    case (threw t)
    with assms have "handleApiError e t = Inr r" by simp
    from handleApiError_envelope [OF this] show ?thesis by blast
  next
    case (returned r')
    with assms have "POST_handler x json w = (Inr r, snd (POST_handler x json w))"
      by (cases "POST_handler x json w") simp
    from POST_handler_Inr [OF this] show ?thesis
      unfolding POST_def wrapped_state by blast
  qed
qed

lemma POST_success:
  assumes c: "conn w \<or> connect_error x = None"
    and n: "\<not> invalid_name (read b ''name'')"
    and t: "truthy (read b ''type'')" "includes_value allowedGroupTypes (read b ''type'')"
    and p: "read b ''profiles'' = JArr ps" "ps \<noteq> []" "check_profiles ps = None"
    and s: "save_error x (new_UserGroup x (generated w) (trim (the_str (read b ''name''))) (read b ''type'')
              (map profile_input ps)) = None"
  shows "fst (POST x e (Inr b) w)
           = Inr (json_response
               (Doc (new_UserGroup x (generated w) (trim (the_str (read b ''name''))) (read b ''type'')
                  (map profile_input ps))) 201)"
proof -
  from dbConnect_connected [OF c] obtain w1 where d: "dbConnect x w = (Inr (), w1)" by blast
  note same = dbConnect_ok [OF d]
  from p(1) have "b \<noteq> JNull" "b \<noteq> JUndefined" by (auto simp: read_def own_prop_def)
  then have g: "get_prop b k = Inr (read b k)" for k by (simp add: get_prop_defined)
  show ?thesis
    using d n t p s same(4)
    by (simp add: POST_def withErrorHandling_def POST_handler_def g Let_def)
qed

lemma PUT_shape:
  assumes "fst (PUT x e gid json w) = Inr r"
  shows "(\<exists>ty m d. r = json_response (Json (error_envelope ty m d)) (status r)) \<or>
         (\<exists>g. r = json_response (Doc g) 200 \<and> g_id g = oid_of x gid \<and>
               groups (snd (PUT x e gid json w)) = replace_doc g (groups w))"
proof -
  from wrapped [where h = "PUT_handler x gid json" and w = w and e = e]
  consider (threw) t where "fst (PUT x e gid json w) = handleApiError e t"
    | (returned) r' where "fst (PUT_handler x gid json w) = Inr r'" "fst (PUT x e gid json w) = Inr r'"
    unfolding PUT_def by blast
  then show ?thesis
  proof cases
    case (threw t)
    with assms have "handleApiError e t = Inr r" by simp
    from handleApiError_envelope [OF this] show ?thesis by blast
  next
    case (returned r')
    with assms have "PUT_handler x gid json w = (Inr r, snd (PUT_handler x gid json w))"
      by (cases "PUT_handler x gid json w") simp
    from PUT_handler_Inr [OF this] obtain reqBody ps doc name
      where f: "find_group (oid_of x gid) (groups w) = Some doc"
        and r: "r = json_response (Doc (doc\<lparr>g_name := name, g_profiles := cast_profiles x ps\<rparr>)) 200"
        and g: "groups (snd (PUT_handler x gid json w))
                  = replace_doc (doc\<lparr>g_name := name, g_profiles := cast_profiles x ps\<rparr>) (groups w)"
      by blast
    from find_group_Some(2) [OF f] have "g_id (doc\<lparr>g_name := name, g_profiles := cast_profiles x ps\<rparr>) = oid_of x gid"
      by simp
    with r g show ?thesis unfolding PUT_def wrapped_state by blast
  qed
qed

lemma PUT_success:
  assumes c: "conn w \<or> connect_error x = None"
    and v: "oid_valid x gid"
    and f: "find_group (oid_of x gid) (groups w) = Some doc"
    and n: "read b ''name'' = JStr s" "trim s \<noteq> []"
    and p: "read b ''profiles'' = JArr ps" "ps \<noteq> []"
    and s: "save_error x (doc\<lparr>g_name := trim s, g_profiles := cast_profiles x ps\<rparr>) = None"
  shows "fst (PUT x e gid (Inr b) w)
           = Inr (json_response (Doc (doc\<lparr>g_name := trim s, g_profiles := cast_profiles x ps\<rparr>)) 200)"
proof -
  from dbConnect_connected [OF c] obtain w1 where d: "dbConnect x w = (Inr (), w1)" by blast
  note same = dbConnect_ok [OF d]
  from p(1) have "b \<noteq> JNull" "b \<noteq> JUndefined" by (auto simp: read_def own_prop_def)
  then have g: "get_prop b k = Inr (read b k)" for k by (simp add: get_prop_defined)
  from n(2) have ne: "s \<noteq> []" by (auto simp: trim_def)
  show ?thesis
    using d v f n p s same(1) ne
    by (simp add: PUT_def withErrorHandling_def PUT_handler_def g Let_def sent_def call_trim_def)
qed

lemma DELETE_profile_shape:
  assumes "fst (DELETE x e gid (Some pid) w) = Inr r" and "pid \<noteq> []"
  shows "(\<exists>ty m d. r = json_response (Json (error_envelope ty m d)) (status r)) \<or>
         (\<exists>doc. find_group (oid_of x gid) (groups w) = Some doc \<and>
            r = json_response (Doc (doc\<lparr>g_profiles := pull (oid_of x pid) (g_profiles doc)\<rparr>)) 200 \<and>
            groups (snd (DELETE x e gid (Some pid) w))
              = replace_doc (doc\<lparr>g_profiles := pull (oid_of x pid) (g_profiles doc)\<rparr>) (groups w))"
proof -
  from wrapped [where h = "DELETE_handler x gid (Some pid)" and w = w and e = e]
  consider (threw) t where "fst (DELETE x e gid (Some pid) w) = handleApiError e t"
    | (returned) r' where "fst (DELETE_handler x gid (Some pid) w) = Inr r'"
        "fst (DELETE x e gid (Some pid) w) = Inr r'"
    unfolding DELETE_def by blast
  then show ?thesis
  proof cases
    case (threw t)
    with assms have "handleApiError e t = Inr r" by simp
    from handleApiError_envelope [OF this] show ?thesis by blast
  next
    case (returned r')
    with assms have h: "DELETE_handler x gid (Some pid) w = (Inr r, snd (DELETE_handler x gid (Some pid) w))"
      by (cases "DELETE_handler x gid (Some pid) w") simp
    show ?thesis
    proof (cases x gid "Some pid" w rule: DELETE_handler_cases)
      case malformed
      with h show ?thesis by simp
    next
      case (unconnected t w1)
      with h show ?thesis by simp
    next
      case (profile u w1 pid')
      with h have "delete_profile x gid pid w1 = (Inr r, snd (DELETE_handler x gid (Some pid) w))" by simp
      from delete_profile_Inr [OF this] dbConnect_ok(1) [OF profile(1)] show ?thesis
        unfolding DELETE_def wrapped_state by auto
    next
      case (whole u w1)
      with assms(2) DELETE_handler_branch(1) [OF _ whole(1), of gid pid] h
      have "oid_valid x gid \<Longrightarrow> delete_profile x gid pid w1 = (Inr r, snd (DELETE_handler x gid (Some pid) w))"
        by simp
      moreover have "oid_valid x gid" using h by (auto simp: DELETE_handler_def split: if_splits)
      ultimately have "delete_profile x gid pid w1 = (Inr r, snd (DELETE_handler x gid (Some pid) w))" by simp
      from delete_profile_Inr [OF this] dbConnect_ok(1) [OF whole(1)] show ?thesis
        unfolding DELETE_def wrapped_state by auto
    qed
  qed
qed

lemma DELETE_profile_success:
  assumes "oid_valid x gid" and "oid_valid x pid" and "pid \<noteq> []"
    and c: "conn w \<or> connect_error x = None"
    and f: "find_group (oid_of x gid) (groups w) = Some doc"
    and "2 \<le> length (g_profiles doc)"
    and "save_error x (doc\<lparr>g_profiles := pull (oid_of x pid) (g_profiles doc)\<rparr>) = None"
  shows "fst (DELETE x e gid (Some pid) w)
           = Inr (json_response (Doc (doc\<lparr>g_profiles := pull (oid_of x pid) (g_profiles doc)\<rparr>)) 200)"
proof -
  from dbConnect_connected [OF c] obtain w1 where d: "dbConnect x w = (Inr (), w1)" by blast
  from f dbConnect_ok(1) [OF d] have f1: "find_group (oid_of x gid) (groups w1) = Some doc" by simp
  from delete_profile_ok [OF assms(2) f1 assms(6) assms(7)] obtain w'
    where "delete_profile x gid pid w1 =
           (Inr (json_response (Doc (doc\<lparr>g_profiles := pull (oid_of x pid) (g_profiles doc)\<rparr>)) 200), w')"
    by blast
  with DELETE_handler_branch(1) [OF assms(1) d, of pid] assms(3) show ?thesis
    by (simp add: DELETE_def withErrorHandling_def)
qed

lemma DELETE_group_shape:
  assumes "fst (DELETE x e gid po w) = Inr r" and "po = None \<or> po = Some []"
  shows "(\<exists>ty m d. r = json_response (Json (error_envelope ty m d)) (status r)) \<or>
         (r = json_response
               (Json (JObj [(lit ''success'', JBool True),
                            (lit ''message'', JStr (lit ''Group deleted successfully''))])) 200 \<and>
          groups (snd (DELETE x e gid po w)) = remove_doc (oid_of x gid) (groups w))"
proof -
  from wrapped [where h = "DELETE_handler x gid po" and w = w and e = e]
  consider (threw) t where "fst (DELETE x e gid po w) = handleApiError e t"
    | (returned) r' where "fst (DELETE_handler x gid po w) = Inr r'"
        "fst (DELETE x e gid po w) = Inr r'"
    unfolding DELETE_def by blast
  then show ?thesis
  proof cases
    case (threw t)
    with assms have "handleApiError e t = Inr r" by simp
    from handleApiError_envelope [OF this] show ?thesis by blast
  next
    case (returned r')
    with assms have h: "DELETE_handler x gid po w = (Inr r, snd (DELETE_handler x gid po w))"
      by (cases "DELETE_handler x gid po w") simp
    show ?thesis
    proof (cases x gid po w rule: DELETE_handler_cases)
      case malformed
      with h show ?thesis by simp
    next
      case (unconnected t w1)
      with h show ?thesis by simp
    next
      case (profile u w1 pid')
      with assms(2) show ?thesis by simp
    next
      case (whole u w1)
      with h have "delete_group x gid w1 = (Inr r, snd (DELETE_handler x gid po w))" by simp
      from delete_group_Inr [OF this] dbConnect_ok(1) [OF whole(1)] show ?thesis
        unfolding DELETE_def wrapped_state by auto
    qed
  qed
qed

lemma DELETE_group_success:
  assumes "oid_valid x gid" and "po = None \<or> po = Some []"
    and c: "conn w \<or> connect_error x = None"
    and f: "find_group (oid_of x gid) (groups w) = Some doc"
  shows "fst (DELETE x e gid po w)
           = Inr (json_response
               (Json (JObj [(lit ''success'', JBool True),
                            (lit ''message'', JStr (lit ''Group deleted successfully''))])) 200)"
proof -
  from dbConnect_connected [OF c] obtain w1 where d: "dbConnect x w = (Inr (), w1)" by blast
  from f dbConnect_ok(1) [OF d] have f1: "find_group (oid_of x gid) (groups w1) = Some doc" by simp
  have "DELETE_handler x gid po w = delete_group x gid w1"
    using assms(2) DELETE_handler_branch [OF assms(1) d] by auto
  with f1 show ?thesis
    by (simp add: DELETE_def withErrorHandling_def delete_group_def Let_def sent_def)
qed

subsection \<open>Every request is answered\<close>

lemma answers_Error: "\<exists>r. handleApiError e (ThrowError y) = Inr r"
  by (simp add: handleApiError_error)

lemma answers_TypeError: "\<exists>r. handleApiError e (TypeError m) = Inr r"
  by (simp add: TypeError_def handleApiError_error)

lemma answers_validation: "\<exists>r. handleApiError e (ThrowApp (createError_validation m d)) = Inr r"
  by (simp add: handleApiError_app createError_validation_def)

lemma answers_notFound: "\<exists>r. handleApiError e (ThrowApp (createError_notFound m)) = Inr r"
  by (simp add: handleApiError_app createError_notFound_def)

lemma answers_database: "\<exists>r. handleApiError e (ThrowApp (createError_database m d)) = Inr r"
  by (simp add: handleApiError_app createError_database_def)

lemma answers_get_prop: "get_prop v k = Inl t \<Longrightarrow> \<exists>r. handleApiError e t = Inr r"
  by (auto simp: get_prop_def answers_TypeError split: if_splits)

lemma answers_call_trim: "call_trim v k = Inl t \<Longrightarrow> \<exists>r. handleApiError e t = Inr r"
  by (cases v) (auto simp: call_trim_def answers_TypeError)

lemma answers_check_profiles: "check_profiles ps = Some t \<Longrightarrow> \<exists>r. handleApiError e t = Inr r"
  by (induction ps) (auto simp: answers_get_prop answers_validation split: sum.splits if_splits)

lemma answers_messages_of: "messages_of errs = Inl t \<Longrightarrow> \<exists>r. handleApiError e t = Inr r"
  by (induction errs arbitrary: t) (auto simp: answers_get_prop split: sum.splits)

lemma answers_save_failed: "\<exists>r. handleApiError e (save_failed what err) = Inr r"
  by (auto simp: save_failed_def Let_def answers_TypeError answers_validation answers_database
        answers_messages_of split: sum.splits)

lemma answers_dbConnect: "dbConnect x w = (Inl t, w1) \<Longrightarrow> \<exists>r. handleApiError e t = Inr r"
  using dbConnect_fail(7) [of x w t w1] by (auto simp: answers_Error)

lemmas answers = answers_Error answers_TypeError answers_validation answers_notFound answers_database
  answers_get_prop answers_call_trim answers_check_profiles answers_save_failed answers_dbConnect

lemma GET_answers: "\<exists>r. fst (GET x e w) = Inr r"
proof (cases "dbConnect x w")
  case (Pair res w1)
  then show ?thesis
    using answers_dbConnect [of x w _ w1 e]
    by (cases res) (auto simp: GET_exact)
qed

lemma POST_handler_throws:
  assumes "POST_handler x json w = (Inl t, w')" and "json \<noteq> Inl t"
  shows "\<exists>r. handleApiError e t = Inr r"
proof -
  obtain res w1 where d: "dbConnect x w = (res, w1)" by (cases "dbConnect x w")
  show ?thesis
  proof (cases res)
    case (Inl t')
    with assms d answers_dbConnect [of x w t' w1 e] show ?thesis by (simp add: POST_handler_def)
  next
    case (Inr u)
    with assms d show ?thesis
      by (auto simp: POST_handler_def Let_def answers split: sum.splits if_splits option.splits)
  qed
qed

lemma PUT_handler_throws:
  assumes "PUT_handler x gid json w = (Inl t, w')" and "json \<noteq> Inl t"
  shows "\<exists>r. handleApiError e t = Inr r"
proof -
  obtain res w1 where d: "dbConnect x w = (res, w1)" by (cases "dbConnect x w")
  show ?thesis
  proof (cases res)
    case (Inl t')
    with assms d answers_dbConnect [of x w t' w1 e] show ?thesis by (simp add: PUT_handler_def)
  next
    case (Inr u)
    with assms d show ?thesis
      by (auto simp: PUT_handler_def Let_def answers split: sum.splits if_splits option.splits)
  qed
qed

lemma DELETE_handler_throws:
  assumes "DELETE_handler x gid po w = (Inl t, w')"
  shows "\<exists>r. handleApiError e t = Inr r"
proof (cases x gid po w rule: DELETE_handler_cases)
  case malformed
  with assms show ?thesis by (auto simp: answers)
next
  case (unconnected t' w1)
  with assms answers_dbConnect [of x w t' w1 e] show ?thesis by simp
next
  case (profile u w1 pid)
  with assms show ?thesis
    by (auto simp: delete_profile_def Let_def answers split: if_splits option.splits)
next
  case (whole u w1)
  with assms show ?thesis
    by (auto simp: delete_group_def Let_def answers split: if_splits option.splits)
qed

lemma wrapped_answers:
  assumes "\<And>t w'. h w = (Inl t, w') \<Longrightarrow> \<exists>r. handleApiError e t = Inr r"
  shows "\<exists>r. fst (withErrorHandling e h w) = Inr r"
proof (cases "h w")
  case (Pair res w')
  show ?thesis
  proof (cases res)
    case (Inl t)
    with Pair assms [of t w'] show ?thesis by (simp add: withErrorHandling_def)
  next
    case (Inr r)
    with Pair show ?thesis by (simp add: withErrorHandling_def)
  qed
qed

lemma POST_answers:
  assumes "json = Inr b \<or> json = Inl (ThrowError err)"
  shows "\<exists>r. fst (POST x e json w) = Inr r"
  unfolding POST_def
proof (rule wrapped_answers)
  fix t w' assume h: "POST_handler x json w = (Inl t, w')"
  show "\<exists>r. handleApiError e t = Inr r"
  proof (cases "json = Inl t")
    case True
    with assms show ?thesis by (auto simp: answers_Error)
  next
    case False
    from POST_handler_throws [OF h False] show ?thesis .
  qed
qed

lemma PUT_answers:
  assumes "json = Inr b \<or> json = Inl (ThrowError err)"
  shows "\<exists>r. fst (PUT x e gid json w) = Inr r"
  unfolding PUT_def
proof (rule wrapped_answers)
  fix t w' assume h: "PUT_handler x gid json w = (Inl t, w')"
  show "\<exists>r. handleApiError e t = Inr r"
  proof (cases "json = Inl t")
    case True
    with assms show ?thesis by (auto simp: answers_Error)
  next
    case False
    from PUT_handler_throws [OF h False] show ?thesis .
  qed
qed

lemma DELETE_answers: "\<exists>r. fst (DELETE x e gid po w) = Inr r"
  unfolding DELETE_def by (rule wrapped_answers) (rule DELETE_handler_throws)

section \<open>Creating a Group: the claim\<close>

text \<open>
  C6, as the specification states it: every POST whose body has no \<open>profiles\<close>, or
  \<open>profiles\<close> that is not an array or is empty, is answered with a VALIDATION error, 400.
  The handler connects to the database and reads the body before it validates: with the
  body \<open>null\<close> the read of \<open>body.name\<close> throws a TypeError, and with a database that
  cannot be reached \<open>dbConnect\<close> throws; both are answered 500, SERVER_ERROR.
\<close>

theorem POST_without_profiles_answered_500:
  "fst (POST sample_ext prod_env (Inr JNull) empty_world)
     = Inr (json_response
         (Json (error_envelope (lit ''SERVER_ERROR'') (lit ''Internal server error'') None)) 500) \<and>
   own_prop no_profiles_body (lit ''profiles'') = Some (JArr []) \<and>
   fst (POST unreachable_ext prod_env (Inr no_profiles_body) empty_world)
     = Inr (json_response
         (Json (error_envelope (lit ''SERVER_ERROR'') (lit ''Internal server error'') None)) 500)"
  by (simp add: POST_def withErrorHandling_def POST_handler_def dbConnect_def sample_ext_def
      unreachable_ext_def empty_world_def get_prop_def TypeError_def handleApiError_error
      prod_env_def production_def no_profiles_body_def own_prop_def lit_def sent_def)

text \<open>
  C6, amended: when the body of a POST has no \<open>profiles\<close>, or \<open>profiles\<close> that is not an
  array or is empty, no Group is stored and no \<open>save\<close> is sent to the persistence layer
  (at most the connection is opened); and when the connection is there or can be opened
  and the body is not \<open>null\<close>, the answer is a VALIDATION error, 400.
\<close>

theorem POST_without_profiles:
  assumes "\<not> (\<exists>ps. own_prop reqBody (lit ''profiles'') = Some (JArr ps) \<and> ps \<noteq> [])"
  shows "groups (snd (POST x e (Inr reqBody) w)) = groups w \<and>
         (trace (snd (POST x e (Inr reqBody) w)) = trace w \<or>
          trace (snd (POST x e (Inr reqBody) w)) = trace w @ [Connect]) \<and>
         ((conn w \<or> connect_error x = None) \<and> reqBody \<noteq> JNull \<and> reqBody \<noteq> JUndefined \<longrightarrow>
            (\<exists>m. fst (POST x e (Inr reqBody) w)
                   = Inr (json_response (Json (error_envelope (lit ''VALIDATION_ERROR'') m None)) 400)))"
proof (cases "dbConnect x w")
  case (Pair res w1)
  show ?thesis
  proof (cases res)
    case (Inl t)
    with Pair have d: "dbConnect x w = (Inl t, w1)" by simp
    from POST_handler_not_connected [OF d] have "snd (POST x e (Inr reqBody) w) = w1"
      by (simp add: POST_def withErrorHandling_def)
    with dbConnect_fail [OF d] show ?thesis by auto
  next
    case (Inr u)
    with Pair have d: "dbConnect x w = (Inr u, w1)" by simp
    from POST_handler_rejects [OF d assms] obtain t
      where h: "POST_handler x (Inr reqBody) w = (Inl t, w1)"
        and v: "reqBody \<noteq> JNull \<and> reqBody \<noteq> JUndefined \<longrightarrow>
                  (\<exists>m. t = ThrowApp (createError_validation m JUndefined))"
      by blast
    have r: "POST x e (Inr reqBody) w = (handleApiError e t, w1)"
      using h by (simp add: POST_def withErrorHandling_def)
    have "\<exists>m. handleApiError e t
                = Inr (json_response (Json (error_envelope (lit ''VALIDATION_ERROR'') m None)) 400)"
      if "reqBody \<noteq> JNull \<and> reqBody \<noteq> JUndefined"
    proof -
      from v that obtain m where "t = ThrowApp (createError_validation m JUndefined)" by blast
      then show ?thesis by (auto simp add: handle_validation)
    qed
    with dbConnect_ok [OF d] show ?thesis unfolding r by auto
  qed
qed

theorem POST_without_profiles_witness:
  "own_prop no_profiles_body (lit ''profiles'') = Some (JArr []) \<and>
   groups (snd (POST sample_ext prod_env (Inr no_profiles_body) empty_world)) = groups empty_world \<and>
   (\<exists>m. fst (POST sample_ext prod_env (Inr no_profiles_body) empty_world)
          = Inr (json_response (Json (error_envelope (lit ''VALIDATION_ERROR'') m None)) 400))"
proof -
  have p: "own_prop no_profiles_body (lit ''profiles'') = Some (JArr [])"
    by (simp add: no_profiles_body_def own_prop_def lit_def)
  then have n: "\<not> (\<exists>ps. own_prop no_profiles_body (lit ''profiles'') = Some (JArr ps) \<and> ps \<noteq> [])"
    by simp
  have c: "conn empty_world \<or> connect_error sample_ext = None"
    by (simp add: sample_ext_def)
  have b: "no_profiles_body \<noteq> JNull \<and> no_profiles_body \<noteq> JUndefined"
    by (simp add: no_profiles_body_def)
  note T = POST_without_profiles [where x = sample_ext and e = prod_env and w = empty_world, OF n]
  from T have c1: "groups (snd (POST sample_ext prod_env (Inr no_profiles_body) empty_world)) = groups empty_world"
    by (rule conjunct1)
  from T c b have c2: "\<exists>m. fst (POST sample_ext prod_env (Inr no_profiles_body) empty_world)
          = Inr (json_response (Json (error_envelope (lit ''VALIDATION_ERROR'') m None)) 400)"
    by blast
  from p c1 c2 show ?thesis by (intro conjI)
qed

section \<open>Updating a Group with a malformed id: the claim\<close>

text \<open>
  C7: a PUT with a malformed id is to be answered 400, VALIDATION, \<open>Invalid group ID format\<close>,
  before anything touches persistence. \<open>PUT\<close> awaits \<open>dbConnect()\<close> and \<open>request.json()\<close>
  first: in a process without a cached connection the connection is opened before the id
  is looked at, and a body that is not JSON, or a database that cannot be reached, gives
  500, SERVER_ERROR. \<open>DELETE\<close>, in the same file, checks the id before it connects: its
  answer to the same id is the 400, with nothing sent.
\<close>

theorem PUT_malformed_id_connects_and_parses_first:
  "\<not> oid_valid sample_ext (lit ''not-an-id'') \<and>
   PUT sample_ext prod_env (lit ''not-an-id'') (Inl not_json) empty_world
     = (Inr (json_response
          (Json (error_envelope (lit ''SERVER_ERROR'') (lit ''Internal server error'') None)) 500),
        empty_world\<lparr>conn := True, trace := [Connect]\<rparr>) \<and>
   PUT unreachable_ext prod_env (lit ''not-an-id'') (Inr smiths_body) empty_world
     = (Inr (json_response
          (Json (error_envelope (lit ''SERVER_ERROR'') (lit ''Internal server error'') None)) 500),
        empty_world\<lparr>trace := [Connect]\<rparr>) \<and>
   PUT sample_ext prod_env (lit ''not-an-id'') (Inr smiths_body) empty_world
     = (Inr (json_response
          (Json (error_envelope (lit ''VALIDATION_ERROR'') (lit ''Invalid group ID format'') None)) 400),
        empty_world\<lparr>conn := True, trace := [Connect]\<rparr>) \<and>
   DELETE unreachable_ext prod_env (lit ''not-an-id'') None empty_world
     = (Inr (json_response
          (Json (error_envelope (lit ''VALIDATION_ERROR'') (lit ''Invalid group ID format'') None)) 400),
        empty_world)"
proof -
  have v: "\<not> sample_oid_valid (lit ''not-an-id'')"
    by (simp add: sample_oid_valid_def lit_def)
  have e: "handleApiError prod_env (ThrowError err)
      = Inr (json_response
          (Json (error_envelope (lit ''SERVER_ERROR'') (lit ''Internal server error'') None)) 500)" for err
    by (simp add: handleApiError_error prod_env_def production_def)
  show ?thesis
    using v
    by (simp add: PUT_def DELETE_def withErrorHandling_def PUT_handler_def DELETE_handler_def
        dbConnect_def sample_ext_def unreachable_ext_def empty_world_def not_json_def e
        handle_validation sent_def)
qed

section \<open>Deleting a Profile the Group does not have: the claim\<close>

text \<open>
  C10: a DELETE with well-formed ids, for a Group that exists and has at least two
  Profiles, none of which has the given \<open>profileId\<close>: with the connection there and
  \<open>save()\<close> accepting the Group, the answer is 200 with the Group as it was, no
  NOT_FOUND; the Groups stored are the same; and the Transactions and the Budgets left
  are exactly those with another \<open>profileId\<close>.
\<close>

theorem DELETE_unknown_profile:
  assumes "oid_valid x gid" and "oid_valid x pid" and "pid \<noteq> []"
    and "conn w \<or> connect_error x = None"
    and "find_group (oid_of x gid) (groups w) = Some doc"
    and "2 \<le> length (g_profiles doc)"
    and "\<forall>p \<in> set (g_profiles doc). p_id p \<noteq> oid_of x pid"
    and "save_error x doc = None"
  shows "fst (DELETE x e gid (Some pid) w) = Inr (json_response (Doc doc) 200) \<and>
         groups (snd (DELETE x e gid (Some pid) w)) = groups w \<and>
         transactions (snd (DELETE x e gid (Some pid) w))
           = filter (\<lambda>c. profileId c \<noteq> oid_of x pid) (transactions w) \<and>
         budgets (snd (DELETE x e gid (Some pid) w))
           = filter (\<lambda>c. profileId c \<noteq> oid_of x pid) (budgets w)"
proof -
  from dbConnect_connected [OF assms(4)] obtain w1 where d: "dbConnect x w = (Inr (), w1)" by blast
  note same = dbConnect_ok [OF d]
  have p: "doc\<lparr>g_profiles := pull (oid_of x pid) (g_profiles doc)\<rparr> = doc"
    using pull_absent [OF assms(7)] by simp
  from assms(5) same(1) have f: "find_group (oid_of x gid) (groups w1) = Some doc" by simp
  from find_group_Some(2) [OF f] f have "find_group (g_id doc) (groups w1) = Some doc" by simp
  then have r: "replace_doc doc (groups w1) = groups w1" by (rule replace_doc_same)
  from delete_profile_ok [OF assms(2) f assms(6), unfolded p, OF assms(8)]
  obtain w' where dp: "delete_profile x gid pid w1 = (Inr (json_response (Doc doc) 200), w')"
    and g: "groups w' = replace_doc doc (groups w1)"
    and t: "transactions w' = delete_by_profile (oid_of x pid) (transactions w1)"
    and b: "budgets w' = delete_by_profile (oid_of x pid) (budgets w1)"
    by blast
  have "DELETE x e gid (Some pid) w = (Inr (json_response (Doc doc) 200), w')"
    using DELETE_handler_branch(1) [OF assms(1) d, of pid] assms(3) dp
    by (simp add: DELETE_def withErrorHandling_def)
  with g t b r same show ?thesis by (simp add: delete_by_profile_def)
qed

theorem DELETE_unknown_profile_witness:
  "find_group (oid_of sample_ext id_16) (groups smiths_world) = Some smiths \<and>
   list_all (\<lambda>p. p_id p \<noteq> oid_of sample_ext id_3) (g_profiles smiths) \<and>
   fst (DELETE sample_ext dev_env id_16 (Some id_3) smiths_world) = Inr (json_response (Doc smiths) 200) \<and>
   groups (snd (DELETE sample_ext dev_env id_16 (Some id_3) smiths_world)) = [smiths] \<and>
   transactions (snd (DELETE sample_ext dev_env id_16 (Some id_3) smiths_world))
     = [\<lparr>profileId = 1, groupId = 16, c_data = JNull\<rparr>, \<lparr>profileId = 2, groupId = 16, c_data = JNull\<rparr>] \<and>
   budgets (snd (DELETE sample_ext dev_env id_16 (Some id_3) smiths_world))
     = [\<lparr>profileId = 2, groupId = 16, c_data = JNull\<rparr>]"
proof -
  have i16: "oid_of sample_ext id_16 = 16"
    by (simp add: sample_ext_def sample_oid_of_def id_16_def lit_def hex_digit_def)
  have i3: "oid_of sample_ext id_3 = 3"
    by (simp add: sample_ext_def sample_oid_of_def id_3_def lit_def hex_digit_def)
  have a1: "oid_valid sample_ext id_16"
    by (simp add: sample_ext_def sample_oid_valid_def id_16_def lit_def hex_digit_def)
  have a2: "oid_valid sample_ext id_3"
    by (simp add: sample_ext_def sample_oid_valid_def id_3_def lit_def hex_digit_def)
  have a3: "id_3 \<noteq> []" by (simp add: id_3_def lit_def)
  have a4: "conn smiths_world \<or> connect_error sample_ext = None" by (simp add: smiths_world_def)
  have a5: "find_group (oid_of sample_ext id_16) (groups smiths_world) = Some smiths"
    unfolding i16 by (simp add: find_group_def smiths_world_def smiths_def)
  have a6: "2 \<le> length (g_profiles smiths)" by (simp add: smiths_def)
  have a7: "\<forall>p \<in> set (g_profiles smiths). p_id p \<noteq> oid_of sample_ext id_3"
    unfolding i3 by (simp add: smiths_def)
  have a8: "save_error sample_ext smiths = None" by (simp add: sample_ext_def)
  note T = DELETE_unknown_profile [where e = dev_env, OF a1 a2 a3 a4 a5 a6 a7 a8, unfolded i3]
  from T have c1: "fst (DELETE sample_ext dev_env id_16 (Some id_3) smiths_world) = Inr (json_response (Doc smiths) 200)"
    by (rule conjunct1)
  from T have c2: "groups (snd (DELETE sample_ext dev_env id_16 (Some id_3) smiths_world)) = [smiths]"
    by (simp add: smiths_world_def)
  from T have c3: "transactions (snd (DELETE sample_ext dev_env id_16 (Some id_3) smiths_world))
     = [\<lparr>profileId = 1, groupId = 16, c_data = JNull\<rparr>, \<lparr>profileId = 2, groupId = 16, c_data = JNull\<rparr>]"
    by (simp add: smiths_world_def)
  from T have c4: "budgets (snd (DELETE sample_ext dev_env id_16 (Some id_3) smiths_world))
     = [\<lparr>profileId = 2, groupId = 16, c_data = JNull\<rparr>]"
    by (simp add: smiths_world_def)
  from a7 have c5: "list_all (\<lambda>p. p_id p \<noteq> oid_of sample_ext id_3) (g_profiles smiths)"
    by (simp add: list_all_iff)
  from a5 c5 c1 c2 c3 c4 show ?thesis by (intro conjI)
qed

section \<open>A Group keeps a Profile: the claim\<close>


section \<open>The envelope of the responses: the claim\<close>

text \<open>
  C8, as the specification states it: every response body has a \<open>success\<close> field, the
  successful ones of GET, POST, PUT and DELETE too. The handlers give the documents
  themselves to \<open>NextResponse.json\<close>: the body of a GET on a database without Groups is the
  array \<open>[]\<close>, which has no \<open>success\<close> field, and the body of a successful POST is the
  saved Group.
\<close>

theorem GET_body_without_success_field:
  "fst (GET sample_ext prod_env empty_world) = Inr (json_response (Json (JArr [])) 200) \<and>
   own_prop (JArr []) (lit ''success'') = None \<and>
   fst (POST sample_ext prod_env (Inr smiths_body) empty_world)
     = Inr (json_response
         (Doc \<lparr>g_id = 4096, g_name = lit ''Smiths'', g_type = JStr (lit ''family''),
               g_profiles = [\<lparr>p_id = 4097, p_name = lit ''Alice'', p_avatar = JStr [],
                              p_color = JStr (lit ''#3B82F6'')\<rparr>]\<rparr>) 201)"
proof -
  have g: "fst (GET sample_ext prod_env empty_world) = Inr (json_response (Json (JArr [])) 200)"
    by (simp add: GET_def withErrorHandling_def GET_handler_def dbConnect_def sample_ext_def
        empty_world_def sent_def)
  have o: "own_prop (JArr []) (lit ''success'') = None"
    by (simp add: own_prop_def index_keys_def)
  have n: "\<not> invalid_name (JStr (lit ''Smiths''))" "\<not> invalid_name (JStr (lit ''Alice''))"
    by (simp_all add: invalid_name_def trim_def is_ws_def lit_def)
  have t: "includes_value allowedGroupTypes (JStr (lit ''family''))" "lit ''family'' \<noteq> []"
    by (simp_all add: includes_value_def allowedGroupTypes_def lit_def)
  have r: "read smiths_body ''name'' = JStr (lit ''Smiths'')"
    "read smiths_body ''type'' = JStr (lit ''family'')"
    "read smiths_body ''profiles'' = JArr [JObj [(lit ''name'', JStr (lit ''Alice''))]]"
    "read (JObj [(lit ''name'', JStr (lit ''Alice''))]) ''name'' = JStr (lit ''Alice'')"
    "read (JObj [(lit ''name'', JStr (lit ''Alice''))]) ''avatar'' = JUndefined"
    "read (JObj [(lit ''name'', JStr (lit ''Alice''))]) ''color'' = JUndefined"
    by (simp_all add: read_def own_prop_def smiths_body_def lit_def)
  have b: "smiths_body \<noteq> JNull" "smiths_body \<noteq> JUndefined" by (simp_all add: smiths_body_def)
  have tr: "trim (lit ''Smiths'') = lit ''Smiths''" "trim (lit ''Alice'') = lit ''Alice''"
    by (simp_all add: trim_def is_ws_def lit_def)
  have h: "POST_handler sample_ext (Inr smiths_body) empty_world
      = (Inr (json_response
         (Doc \<lparr>g_id = 4096, g_name = lit ''Smiths'', g_type = JStr (lit ''family''),
               g_profiles = [\<lparr>p_id = 4097, p_name = lit ''Alice'', p_avatar = JStr [],
                              p_color = JStr (lit ''#3B82F6'')\<rparr>]\<rparr>) 201),
         snd (POST_handler sample_ext (Inr smiths_body) empty_world))"
    by (simp add: POST_handler_def dbConnect_def sample_ext_def empty_world_def sent_def
        get_prop_def b r n t tr Let_def new_UserGroup_def profile_input_def or_else_def)
  have p: "fst (POST sample_ext prod_env (Inr smiths_body) empty_world)
     = Inr (json_response
         (Doc \<lparr>g_id = 4096, g_name = lit ''Smiths'', g_type = JStr (lit ''family''),
               g_profiles = [\<lparr>p_id = 4097, p_name = lit ''Alice'', p_avatar = JStr [],
                              p_color = JStr (lit ''#3B82F6'')\<rparr>]\<rparr>) 201)"
    unfolding POST_def withErrorHandling_def by (subst h) simp
  from g o p show ?thesis by (intro conjI)
qed

text \<open>
  C8, amended. The body of every error response, that is of the response to anything a
  handler throws, is \<open>{success: false, error: {type, message, details?}}\<close>, and the 429
  of the rate limiter has \<open>success: false\<close> and an \<open>error\<close> object with \<open>message\<close> and
  \<open>type\<close>. A response that is no error response is, for the deletion of a Group (no
  \<open>profileId\<close>, or an empty one), \<open>{success: true, message}\<close> with 200, the Group
  being removed; and otherwise the documents themselves, without an envelope and without
  a \<open>success\<close> field: for GET the array of the stored Groups, the empty array when
  there is none, with 200; for POST the Group that has been added to the stored ones,
  with 201; for PUT the Group that has taken the place of the stored one, with 200; for
  the deletion of a Profile the Group without the Profiles of that id, which has taken
  the place of the stored one, with 200. And these are the responses when the request
  is a valid one: when the connection is there or can be opened, the ids are well-formed,
  the Group is found, the body has what the handler asks for (for the deletion of a
  Profile: the Group has two Profiles or more), and \<open>save()\<close> accepts the document.
  Every request is answered with a response, an error response if with no other, when
  \<open>request.json()\<close> gives a value or throws an \<open>Error\<close>.
\<close>

theorem response_bodies:
  "(fst (GET x e w) = Inr r \<longrightarrow>
      (\<exists>ty m d. r = json_response (Json (error_envelope ty m d)) (status r)) \<or>
      r = json_response (if groups w = [] then Json (JArr []) else Docs (groups w)) 200) \<and>
   (conn w \<or> connect_error x = None \<longrightarrow>
      fst (GET x e w)
        = Inr (json_response (if groups w = [] then Json (JArr []) else Docs (groups w)) 200)) \<and>
   (fst (POST x e json w) = Inr r \<longrightarrow>
      (\<exists>ty m d. r = json_response (Json (error_envelope ty m d)) (status r)) \<or>
      (\<exists>g. r = json_response (Doc g) 201 \<and> groups (snd (POST x e json w)) = groups w @ [g])) \<and>
   ((conn w \<or> connect_error x = None) \<and> \<not> invalid_name (read b ''name'') \<and>
    truthy (read b ''type'') \<and> includes_value allowedGroupTypes (read b ''type'') \<and>
    read b ''profiles'' = JArr ps \<and> ps \<noteq> [] \<and> check_profiles ps = None \<and>
    save_error x (new_UserGroup x (generated w) (trim (the_str (read b ''name''))) (read b ''type'')
                    (map profile_input ps)) = None \<longrightarrow>
      fst (POST x e (Inr b) w)
        = Inr (json_response
            (Doc (new_UserGroup x (generated w) (trim (the_str (read b ''name''))) (read b ''type'')
                    (map profile_input ps))) 201)) \<and>
   (fst (PUT x e gid json w) = Inr r \<longrightarrow>
      (\<exists>ty m d. r = json_response (Json (error_envelope ty m d)) (status r)) \<or>
      (\<exists>g. r = json_response (Doc g) 200 \<and> g_id g = oid_of x gid \<and>
            groups (snd (PUT x e gid json w)) = replace_doc g (groups w))) \<and>
   ((conn w \<or> connect_error x = None) \<and> oid_valid x gid \<and>
    find_group (oid_of x gid) (groups w) = Some doc \<and>
    read b ''name'' = JStr s \<and> trim s \<noteq> [] \<and> read b ''profiles'' = JArr ps \<and> ps \<noteq> [] \<and>
    save_error x (doc\<lparr>g_name := trim s, g_profiles := cast_profiles x ps\<rparr>) = None \<longrightarrow>
      fst (PUT x e gid (Inr b) w)
        = Inr (json_response (Doc (doc\<lparr>g_name := trim s, g_profiles := cast_profiles x ps\<rparr>)) 200)) \<and>
   (fst (DELETE x e gid (Some pid) w) = Inr r \<and> pid \<noteq> [] \<longrightarrow>
      (\<exists>ty m d. r = json_response (Json (error_envelope ty m d)) (status r)) \<or>
      (\<exists>g. find_group (oid_of x gid) (groups w) = Some g \<and>
         r = json_response (Doc (g\<lparr>g_profiles := pull (oid_of x pid) (g_profiles g)\<rparr>)) 200 \<and>
         groups (snd (DELETE x e gid (Some pid) w))
           = replace_doc (g\<lparr>g_profiles := pull (oid_of x pid) (g_profiles g)\<rparr>) (groups w))) \<and>
   (oid_valid x gid \<and> oid_valid x pid \<and> pid \<noteq> [] \<and> (conn w \<or> connect_error x = None) \<and>
    find_group (oid_of x gid) (groups w) = Some doc \<and> 2 \<le> length (g_profiles doc) \<and>
    save_error x (doc\<lparr>g_profiles := pull (oid_of x pid) (g_profiles doc)\<rparr>) = None \<longrightarrow>
      fst (DELETE x e gid (Some pid) w)
        = Inr (json_response (Doc (doc\<lparr>g_profiles := pull (oid_of x pid) (g_profiles doc)\<rparr>)) 200)) \<and>
   (fst (DELETE x e gid po w) = Inr r \<and> (po = None \<or> po = Some []) \<longrightarrow>
      (\<exists>ty m d. r = json_response (Json (error_envelope ty m d)) (status r)) \<or>
      (r = json_response
             (Json (JObj [(lit ''success'', JBool True),
                          (lit ''message'', JStr (lit ''Group deleted successfully''))])) 200 \<and>
       groups (snd (DELETE x e gid po w)) = remove_doc (oid_of x gid) (groups w))) \<and>
   (oid_valid x gid \<and> (po = None \<or> po = Some []) \<and> (conn w \<or> connect_error x = None) \<and>
    find_group (oid_of x gid) (groups w) = Some doc \<longrightarrow>
      fst (DELETE x e gid po w)
        = Inr (json_response
            (Json (JObj [(lit ''success'', JBool True),
                         (lit ''message'', JStr (lit ''Group deleted successfully''))])) 200)) \<and>
   (handleApiError e t = Inr r \<longrightarrow>
      (\<exists>ty m d. r = json_response (Json (error_envelope ty m d)) (status r))) \<and>
   own_prop (error_envelope ty msg det) (lit ''success'') = Some (JBool False) \<and>
   (\<exists>fs. own_prop (error_envelope ty msg det) (lit ''error'') = Some (JObj fs) \<and>
      map_of fs (lit ''type'') = Some (JStr ty) \<and> map_of fs (lit ''message'') = Some (JStr msg) \<and>
      map_of fs (lit ''details'') = det) \<and>
   (\<exists>v fs. body (too_many_requests reset) = Json v \<and>
      own_prop v (lit ''success'') = Some (JBool False) \<and>
      own_prop v (lit ''error'') = Some (JObj fs) \<and>
      map_of fs (lit ''message'') = Some (JStr (lit ''Too many requests, please try again later.'')) \<and>
      map_of fs (lit ''type'') = Some (JStr (lit ''RATE_LIMIT_EXCEEDED''))) \<and>
   (\<exists>r. fst (GET x e w) = Inr r) \<and>
   (json = Inr b \<or> json = Inl (ThrowError err) \<longrightarrow> (\<exists>r. fst (POST x e json w) = Inr r)) \<and>
   (json = Inr b \<or> json = Inl (ThrowError err) \<longrightarrow> (\<exists>r. fst (PUT x e gid json w) = Inr r)) \<and>
   (\<exists>r. fst (DELETE x e gid po w) = Inr r)"
proof -
  have lim: "\<exists>v fs. body (too_many_requests reset) = Json v \<and>
      own_prop v (lit ''success'') = Some (JBool False) \<and>
      own_prop v (lit ''error'') = Some (JObj fs) \<and>
      map_of fs (lit ''message'') = Some (JStr (lit ''Too many requests, please try again later.'')) \<and>
      map_of fs (lit ''type'') = Some (JStr (lit ''RATE_LIMIT_EXCEEDED''))"
    by (simp add: too_many_requests_def own_prop_def lit_def)
  note ef = error_envelope_fields [of ty msg det]
  show ?thesis
  proof (intro conjI impI)
    show "\<exists>v fs. body (too_many_requests reset) = Json v \<and>
      own_prop v (lit ''success'') = Some (JBool False) \<and>
      own_prop v (lit ''error'') = Some (JObj fs) \<and>
      map_of fs (lit ''message'') = Some (JStr (lit ''Too many requests, please try again later.'')) \<and>
      map_of fs (lit ''type'') = Some (JStr (lit ''RATE_LIMIT_EXCEEDED''))"
      by (rule lim)
    show "own_prop (error_envelope ty msg det) (lit ''success'') = Some (JBool False)"
      by (rule ef [THEN conjunct1])
    show "\<exists>fs. own_prop (error_envelope ty msg det) (lit ''error'') = Some (JObj fs) \<and>
      map_of fs (lit ''type'') = Some (JStr ty) \<and> map_of fs (lit ''message'') = Some (JStr msg) \<and>
      map_of fs (lit ''details'') = det"
      by (rule ef [THEN conjunct2])
  qed (rule GET_answers DELETE_answers
        | erule GET_shape GET_success POST_shape PUT_shape handleApiError_envelope
            POST_answers PUT_answers
        | (elim conjE, erule (7) POST_success)
        | (elim conjE, erule (7) PUT_success)
        | (elim conjE, erule (1) DELETE_profile_shape)
        | (elim conjE, erule (6) DELETE_profile_success)
        | (elim conjE, erule (1) DELETE_group_shape)
        | (elim conjE, erule (3) DELETE_group_success))+
qed

theorem response_bodies_witness:
  "fst (GET sample_ext prod_env smiths_world) = Inr (json_response (Docs [smiths]) 200) \<and>
   fst (POST sample_ext prod_env (Inr smiths_body) smiths_world)
     = Inr (json_response
         (Doc \<lparr>g_id = 4096, g_name = lit ''Smiths'', g_type = JStr (lit ''family''),
               g_profiles = [\<lparr>p_id = 4097, p_name = lit ''Alice'', p_avatar = JStr [],
                              p_color = JStr (lit ''#3B82F6'')\<rparr>]\<rparr>) 201) \<and>
   fst (PUT sample_ext prod_env id_16 (Inr twins_body) smiths_world)
     = Inr (json_response (Doc twins) 200) \<and>
   fst (DELETE sample_ext prod_env id_16 (Some id_1) smiths_world)
     = Inr (json_response
         (Doc \<lparr>g_id = 16, g_name = lit ''Smiths'', g_type = JStr (lit ''family''),
               g_profiles = [\<lparr>p_id = 2, p_name = lit ''Bob'', p_avatar = JStr [],
                              p_color = JStr (lit ''#3B82F6'')\<rparr>]\<rparr>) 200) \<and>
   fst (DELETE sample_ext prod_env id_16 None smiths_world)
     = Inr (json_response
         (Json (JObj [(lit ''success'', JBool True),
                      (lit ''message'', JStr (lit ''Group deleted successfully''))])) 200) \<and>
   handleApiError prod_env not_json
     = Inr (json_response
         (Json (error_envelope (lit ''SERVER_ERROR'') (lit ''Internal server error'') None)) 500) \<and>
   (\<exists>ty m d.
      json_response (Json (error_envelope (lit ''SERVER_ERROR'') (lit ''Internal server error'') None)) 500
        = json_response (Json (error_envelope ty m d)) 500) \<and>
   (\<exists>r. fst (POST sample_ext prod_env (Inl not_json) smiths_world) = Inr r)"
proof -
  let ?alice = "JObj [(lit ''name'', JStr (lit ''Alice''))]"
  let ?r = "json_response (Json (error_envelope (lit ''SERVER_ERROR'') (lit ''Internal server error'') None)) 500"
  have i16: "oid_of sample_ext id_16 = 16"
    by (simp add: sample_ext_def sample_oid_of_def id_16_def lit_def hex_digit_def)
  have i1: "oid_of sample_ext id_1 = 1"
    by (simp add: sample_ext_def sample_oid_of_def id_1_def lit_def hex_digit_def)
  have v16: "oid_valid sample_ext id_16"
    by (simp add: sample_ext_def sample_oid_valid_def id_16_def lit_def hex_digit_def)
  have v1: "oid_valid sample_ext id_1"
    by (simp add: sample_ext_def sample_oid_valid_def id_1_def lit_def hex_digit_def)
  have n1: "id_1 \<noteq> []" by (simp add: id_1_def lit_def)
  have c: "conn smiths_world \<or> connect_error sample_ext = None" by (simp add: smiths_world_def)
  have f: "find_group (oid_of sample_ext id_16) (groups smiths_world) = Some smiths"
    unfolding i16 by (simp add: find_group_def smiths_world_def smiths_def)
  have l: "2 \<le> length (g_profiles smiths)" by (simp add: smiths_def)
  have sv: "save_error sample_ext g = None" for g by (simp add: sample_ext_def)
  have rn: "read smiths_body ''name'' = JStr (lit ''Smiths'')"
    and rt: "read smiths_body ''type'' = JStr (lit ''family'')"
    and rp: "read smiths_body ''profiles'' = JArr [?alice]"
    and ra: "read ?alice ''name'' = JStr (lit ''Alice'')" "read ?alice ''avatar'' = JUndefined"
      "read ?alice ''color'' = JUndefined"
    by (simp_all add: read_def own_prop_def smiths_body_def lit_def)
  have tr: "trim (lit ''Smiths'') = lit ''Smiths''" "trim (lit ''Alice'') = lit ''Alice''"
    by (simp_all add: trim_def is_ws_def lit_def)
  have ne: "lit ''Smiths'' \<noteq> []" "[?alice] \<noteq> []" by (simp_all add: lit_def)
  have nm: "\<not> invalid_name (read smiths_body ''name'')"
    unfolding rn by (simp add: invalid_name_def tr ne)
  have ty: "truthy (read smiths_body ''type'')" "includes_value allowedGroupTypes (read smiths_body ''type'')"
    unfolding rt by (simp_all add: includes_value_def allowedGroupTypes_def lit_def)
  have cp: "check_profiles [?alice] = None"
    by (simp add: get_prop_def ra invalid_name_def tr) (simp add: lit_def)
  have ts: "trim (lit ''Smiths'') \<noteq> []" unfolding tr by (rule ne)
  have h: "handleApiError prod_env not_json = Inr ?r"
    by (simp add: not_json_def handleApiError_error prod_env_def production_def)
  note T = response_bodies
         [where x = sample_ext and e = prod_env and w = smiths_world and gid = id_16 and pid = id_1
            and po = None and doc = smiths and b = smiths_body and ps = "[?alice]"
            and s = "lit ''Smiths''" and t = not_json and r = ?r]
  note T2 = T [THEN conjunct2]
  note T4 = T2 [THEN conjunct2, THEN conjunct2]
  note T6 = T4 [THEN conjunct2, THEN conjunct2]
  note T8 = T6 [THEN conjunct2, THEN conjunct2]
  note T10 = T8 [THEN conjunct2, THEN conjunct2]
  note T11 = T10 [THEN conjunct2]
  from mp [OF T2 [THEN conjunct1] c]
  have c1: "fst (GET sample_ext prod_env smiths_world) = Inr (json_response (Docs [smiths]) 200)"
    by (simp add: smiths_world_def)
  from mp [OF T4 [THEN conjunct1]] c nm ty rp ne(2) cp sv
  have "fst (POST sample_ext prod_env (Inr smiths_body) smiths_world)
        = Inr (json_response
            (Doc (new_UserGroup sample_ext (generated smiths_world)
                    (trim (the_str (read smiths_body ''name''))) (read smiths_body ''type'')
                    (map profile_input [?alice]))) 201)"
    by (intro mp [OF T4 [THEN conjunct1]] conjI)
  then have c2: "fst (POST sample_ext prod_env (Inr smiths_body) smiths_world)
     = Inr (json_response
         (Doc \<lparr>g_id = 4096, g_name = lit ''Smiths'', g_type = JStr (lit ''family''),
               g_profiles = [\<lparr>p_id = 4097, p_name = lit ''Alice'', p_avatar = JStr [],
                              p_color = JStr (lit ''#3B82F6'')\<rparr>]\<rparr>) 201)"
    by (simp add: rn rt tr new_UserGroup_def profile_input_def ra or_else_def sample_ext_def
        smiths_world_def)
  let ?a1 = "JObj [(lit ''_id'', JStr id_1), (lit ''name'', JStr (lit ''Alice''))]"
  let ?b1 = "JObj [(lit ''_id'', JStr id_1), (lit ''name'', JStr (lit ''Bob''))]"
  have un: "read twins_body ''name'' = JStr (lit ''Smiths'')"
    and up: "read twins_body ''profiles'' = JArr [?a1, ?b1]"
    by (simp_all add: read_def own_prop_def twins_body_def lit_def)
  have uc: "cast_profiles sample_ext [?a1, ?b1] = g_profiles twins"
    using i1 by (simp add: sample_ext_def sample_cast_def read_def own_prop_def twins_def)
                (simp add: lit_def)
  have u2: "[?a1, ?b1] \<noteq> []" by simp
  note U = response_bodies
         [where x = sample_ext and e = prod_env and w = smiths_world and gid = id_16
            and doc = smiths and b = twins_body and ps = "[?a1, ?b1]" and s = "lit ''Smiths''"]
  note U6 = U [THEN conjunct2, THEN conjunct2, THEN conjunct2, THEN conjunct2, THEN conjunct2]
  from c v16 f un ts up u2 sv
  have "fst (PUT sample_ext prod_env id_16 (Inr twins_body) smiths_world)
        = Inr (json_response
            (Doc (smiths\<lparr>g_name := trim (lit ''Smiths''),
                          g_profiles := cast_profiles sample_ext [?a1, ?b1]\<rparr>)) 200)"
    by (intro mp [OF U6 [THEN conjunct1]] conjI)
  then have c3: "fst (PUT sample_ext prod_env id_16 (Inr twins_body) smiths_world)
     = Inr (json_response (Doc twins) 200)"
    unfolding uc tr by (simp add: smiths_def twins_def)
  from v16 v1 n1 c f l sv
  have "fst (DELETE sample_ext prod_env id_16 (Some id_1) smiths_world)
        = Inr (json_response
            (Doc (smiths\<lparr>g_profiles := pull (oid_of sample_ext id_1) (g_profiles smiths)\<rparr>)) 200)"
    by (intro mp [OF T8 [THEN conjunct1]] conjI)
  then have c4: "fst (DELETE sample_ext prod_env id_16 (Some id_1) smiths_world)
     = Inr (json_response
         (Doc \<lparr>g_id = 16, g_name = lit ''Smiths'', g_type = JStr (lit ''family''),
               g_profiles = [\<lparr>p_id = 2, p_name = lit ''Bob'', p_avatar = JStr [],
                              p_color = JStr (lit ''#3B82F6'')\<rparr>]\<rparr>) 200)"
    unfolding i1 by (simp add: smiths_def pull_def)
  have pn: "(None :: jstring option) = None \<or> (None :: jstring option) = Some []" by simp
  from v16 pn c f
  have c5: "fst (DELETE sample_ext prod_env id_16 None smiths_world)
     = Inr (json_response
         (Json (JObj [(lit ''success'', JBool True),
                      (lit ''message'', JStr (lit ''Group deleted successfully''))])) 200)"
    by (intro mp [OF T10 [THEN conjunct1]] conjI)
  from mp [OF T11 [THEN conjunct1] h]
  have c6: "\<exists>ty m d. ?r = json_response (Json (error_envelope ty m d)) 500"
    by (simp add: json_response_def)
  let ?err = "\<lparr>ename = lit ''SyntaxError'', emessage = lit ''Unexpected end of JSON input'', eprops = []\<rparr>"
  note V = response_bodies
         [where x = sample_ext and e = prod_env and w = smiths_world and json = "Inl not_json"
            and err = ?err]
  note V4 = V [THEN conjunct2, THEN conjunct2, THEN conjunct2]
  note V8 = V4 [THEN conjunct2, THEN conjunct2, THEN conjunct2, THEN conjunct2]
  note V12 = V8 [THEN conjunct2, THEN conjunct2, THEN conjunct2, THEN conjunct2]
  note V16 = V12 [THEN conjunct2, THEN conjunct2, THEN conjunct2, THEN conjunct2]
  have nj: "Inl not_json = Inr b \<or> (Inl not_json :: thrown + jsval) = Inl (ThrowError ?err)" for b
    by (simp add: not_json_def)
  have c7: "\<exists>r. fst (POST sample_ext prod_env (Inl not_json) smiths_world) = Inr r"
    by (rule mp [OF V16 [THEN conjunct1] nj])
  from c1 c2 c3 c4 c5 h c6 c7 show ?thesis by (intro conjI)
qed

end
